theory Spec2Isabelle
  imports
    Complex_Main
    "HOL-Library.Char_ord"
    "HOL-Library.List_Lexorder"
    "HOL-Library.Sublist"
    "HOL-Library.Multiset"
    "HOL-Library.Log_Nat"
begin

section \<open>JavaScript numbers and primitive values\<close>

text \<open>
  The dashboard (\<^verbatim>\<open>src/App.jsx\<close>) computes with JavaScript numbers: the binary64 values,
  the two infinities and \<^verbatim>\<open>NaN\<close>. A finite number is modelled by its real value, and
  \<^verbatim>\<open>-0\<close> is identified with \<^verbatim>\<open>0\<close> (a division by zero takes the sign of the dividend
  alone).
\<close>

datatype jsnum = Fin real | PInf | NInf | NaN

subsection \<open>Rounding to binary64\<close>

text \<open>
  An arithmetic operation of the engine returns the exact result rounded to the nearest
  binary64 value, ties to the even significand: 53 significant bits, the least exponent
  \<open>-1022\<close> (below it the spacing stays \<open>2^-1074\<close>, and results of at most \<open>2^-1075\<close> in
  magnitude become 0), and overflow to an infinity from \<open>2^1024\<close> on.
\<close>

definition pow2 :: "int \<Rightarrow> real" where
  "pow2 k = (if 0 \<le> k then 2 ^ nat k else 1 / 2 ^ nat (- k))"

text \<open>
  The binary exponent of a positive real: the \<open>k\<close> with \<open>2^k \<le> x < 2^(k+1)\<close>, read off
  the bit length of its integer part or, below 1, of the reciprocal's.
\<close>

definition expo :: "real \<Rightarrow> int" where
  "expo x =
     (if 1 \<le> x then int (floorlog 2 (nat \<lfloor>x\<rfloor>)) - 1
      else - int (floorlog 2 (nat (\<lceil>1 / x\<rceil> - 1))))"

text \<open>The nearest integer, a tie going to the even one.\<close>

definition round_even :: "real \<Rightarrow> int" where
  "round_even m =
     (let n = \<lfloor>m\<rfloor>; f = m - of_int n
      in if f < 1 / 2 then n else if 1 / 2 < f then n + 1
         else if even n then n else n + 1)"

definition round64 :: "real \<Rightarrow> jsnum" where
  "round64 x =
     (if x = 0 then Fin 0
      else
        let q = pow2 (max (expo \<bar>x\<bar>) (- 1022) - 52);
            y = of_int (round_even (\<bar>x\<bar> / q)) * q
        in if pow2 1024 \<le> y then (if 0 < x then PInf else NInf)
           else Fin (if 0 < x then y else - y))"

text \<open>The reals that are binary64 values: those the rounding leaves as they are.\<close>

definition is_binary64 :: "real \<Rightarrow> bool" where
  "is_binary64 x = (round64 x = Fin x)"

text \<open>
  The rounding is a parameter \<open>R\<close> of every function that computes: \<open>round64\<close> is the
  engine, and \<open>Fin\<close>, which rounds nothing, is exact arithmetic.
\<close>

type_synonym rounding = "real \<Rightarrow> jsnum"

subsection \<open>The operators\<close>

text \<open>Each follows the table of the language for the special values.\<close>

fun jadd :: "rounding \<Rightarrow> jsnum \<Rightarrow> jsnum \<Rightarrow> jsnum" where
  "jadd R NaN _ = NaN"
| "jadd R _ NaN = NaN"
| "jadd R (Fin a) (Fin b) = R (a + b)"
| "jadd R (Fin a) PInf = PInf"
| "jadd R (Fin a) NInf = NInf"
| "jadd R PInf (Fin b) = PInf"
| "jadd R NInf (Fin b) = NInf"
| "jadd R PInf PInf = PInf"
| "jadd R NInf NInf = NInf"
| "jadd R PInf NInf = NaN"
| "jadd R NInf PInf = NaN"

fun jsub :: "rounding \<Rightarrow> jsnum \<Rightarrow> jsnum \<Rightarrow> jsnum" where
  "jsub R NaN _ = NaN"
| "jsub R _ NaN = NaN"
| "jsub R (Fin a) (Fin b) = R (a - b)"
| "jsub R (Fin a) PInf = NInf"
| "jsub R (Fin a) NInf = PInf"
| "jsub R PInf (Fin b) = PInf"
| "jsub R NInf (Fin b) = NInf"
| "jsub R PInf NInf = PInf"
| "jsub R NInf PInf = NInf"
| "jsub R PInf PInf = NaN"
| "jsub R NInf NInf = NaN"

text \<open>The infinity with the sign of a non-zero finite factor, or its opposite.\<close>

definition inf_of_sign :: "bool \<Rightarrow> jsnum" where
  "inf_of_sign positive = (if positive then PInf else NInf)"

fun jmul :: "rounding \<Rightarrow> jsnum \<Rightarrow> jsnum \<Rightarrow> jsnum" where
  "jmul R NaN _ = NaN"
| "jmul R _ NaN = NaN"
| "jmul R (Fin a) (Fin b) = R (a * b)"
| "jmul R (Fin a) PInf = (if a = 0 then NaN else inf_of_sign (0 < a))"
| "jmul R (Fin a) NInf = (if a = 0 then NaN else inf_of_sign (a < 0))"
| "jmul R PInf (Fin b) = (if b = 0 then NaN else inf_of_sign (0 < b))"
| "jmul R NInf (Fin b) = (if b = 0 then NaN else inf_of_sign (b < 0))"
| "jmul R PInf PInf = PInf"
| "jmul R NInf NInf = PInf"
| "jmul R PInf NInf = NInf"
| "jmul R NInf PInf = NInf"

fun jdiv :: "rounding \<Rightarrow> jsnum \<Rightarrow> jsnum \<Rightarrow> jsnum" where
  "jdiv R NaN _ = NaN"
| "jdiv R _ NaN = NaN"
| "jdiv R (Fin a) (Fin b) =
     (if b = 0 then (if a = 0 then NaN else inf_of_sign (0 < a)) else R (a / b))"
| "jdiv R (Fin a) PInf = Fin 0"
| "jdiv R (Fin a) NInf = Fin 0"
| "jdiv R PInf (Fin b) = inf_of_sign (0 \<le> b)"
| "jdiv R NInf (Fin b) = inf_of_sign (b < 0)"
| "jdiv R PInf PInf = NaN"
| "jdiv R NInf NInf = NaN"
| "jdiv R PInf NInf = NaN"
| "jdiv R NInf PInf = NaN"

text \<open>\<^verbatim>\<open>Math.abs\<close> and \<^verbatim>\<open>Math.max\<close> (of two arguments): exact, nothing to round.\<close>

fun jabs :: "jsnum \<Rightarrow> jsnum" where
  "jabs (Fin a) = Fin \<bar>a\<bar>"
| "jabs PInf = PInf"
| "jabs NInf = PInf"
| "jabs NaN = NaN"

fun jmax :: "jsnum \<Rightarrow> jsnum \<Rightarrow> jsnum" where
  "jmax NaN _ = NaN"
| "jmax _ NaN = NaN"
| "jmax (Fin a) (Fin b) = Fin (max a b)"
| "jmax PInf _ = PInf"
| "jmax _ PInf = PInf"
| "jmax NInf b = b"
| "jmax a NInf = a"

text \<open>The relational operators: every comparison with \<^verbatim>\<open>NaN\<close> is false.\<close>

fun jlt :: "jsnum \<Rightarrow> jsnum \<Rightarrow> bool" where
  "jlt NaN _ = False"
| "jlt _ NaN = False"
| "jlt (Fin a) (Fin b) = (a < b)"
| "jlt _ NInf = False"
| "jlt NInf _ = True"
| "jlt PInf _ = False"
| "jlt (Fin a) PInf = True"

fun jle :: "jsnum \<Rightarrow> jsnum \<Rightarrow> bool" where
  "jle NaN _ = False"
| "jle _ NaN = False"
| "jle (Fin a) (Fin b) = (a \<le> b)"
| "jle NInf _ = True"
| "jle _ PInf = True"
| "jle PInf _ = False"
| "jle (Fin a) NInf = False"

definition jgt :: "jsnum \<Rightarrow> jsnum \<Rightarrow> bool" where
  "jgt a b = jlt b a"

definition jge :: "jsnum \<Rightarrow> jsnum \<Rightarrow> bool" where
  "jge a b = jle b a"

subsection \<open>Values and coercions\<close>

text \<open>
  The values the component stores and passes around: form fields are strings, settings
  and stored balances are numbers or strings, and a missing setting is \<^verbatim>\<open>undefined\<close>.
\<close>

datatype jsval = JUndefined | JNull | JBool bool | JNum jsnum | JStr string

text \<open>\<^verbatim>\<open>ToBoolean\<close>: what \<^verbatim>\<open>!x\<close> and \<^verbatim>\<open>x || y\<close> test.\<close>

definition truthy_num :: "jsnum \<Rightarrow> bool" where
  "truthy_num n = (n \<noteq> Fin 0 \<and> n \<noteq> NaN)"

fun ToBoolean :: "jsval \<Rightarrow> bool" where
  "ToBoolean JUndefined = False"
| "ToBoolean JNull = False"
| "ToBoolean (JBool b) = b"
| "ToBoolean (JNum n) = truthy_num n"
| "ToBoolean (JStr s) = (s \<noteq> [])"

text \<open>
  \<^verbatim>\<open>Number(x)\<close>. The engine's parser of numeric strings (\<^verbatim>\<open>StringToNumber\<close>) is a
  parameter \<open>P\<close> of every function that coerces a string.
\<close>

type_synonym str2num = "string \<Rightarrow> jsnum"

fun Number :: "str2num \<Rightarrow> jsval \<Rightarrow> jsnum" where
  "Number P JUndefined = NaN"
| "Number P JNull = Fin 0"
| "Number P (JBool b) = (if b then Fin 1 else Fin 0)"
| "Number P (JNum n) = n"
| "Number P (JStr s) = P s"

text \<open>\<^verbatim>\<open>x || y\<close> on values.\<close>

definition jor :: "jsval \<Rightarrow> jsval \<Rightarrow> jsval" where
  "jor x y = (if ToBoolean x then x else y)"

text \<open>
  An argument of a function can be any primitive value. One of them has no conversion to
  a number: \<^verbatim>\<open>Number\<close> of a symbol throws a \<^verbatim>\<open>TypeError\<close>. A symbol is truthy.
\<close>

datatype jsarg = Prim jsval | JSymbol

datatype 'a outcome = Returns 'a | Throws

fun NumberT :: "str2num \<Rightarrow> jsarg \<Rightarrow> jsnum outcome" where
  "NumberT P (Prim v) = Returns (Number P v)"
| "NumberT P JSymbol = Throws"

fun or_arg :: "jsarg \<Rightarrow> jsval \<Rightarrow> jsarg" where
  "or_arg (Prim v) y = Prim (jor v y)"
| "or_arg JSymbol y = JSymbol"

section \<open>Position sizing: \<^verbatim>\<open>calcPosition\<close>\<close>

record position =
  entry :: jsnum
  stop :: jsnum
  stopDist :: jsnum
  riskValue :: jsnum
  positionUSDT :: jsnum
  units :: jsnum
  notional :: jsnum
  marginRequired :: jsnum
  estFees :: jsnum

text \<open>
  The result \<^verbatim>\<open>null\<close> is \<open>None\<close>. The six coercions run in the order of the source, and
  the first that throws ends the call.
\<close>

definition calcPosition ::
  "rounding \<Rightarrow> str2num \<Rightarrow> jsarg \<Rightarrow> jsarg \<Rightarrow> jsarg \<Rightarrow> jsarg \<Rightarrow> jsarg \<Rightarrow> jsarg \<Rightarrow>
     position option outcome" where
  "calcPosition R P entry_v stop_v balance_v riskPercent_v feePercent_v leverage_v =
     (case NumberT P entry_v of Throws \<Rightarrow> Throws | Returns e \<Rightarrow>
      case NumberT P stop_v of Throws \<Rightarrow> Throws | Returns s \<Rightarrow>
      case NumberT P balance_v of Throws \<Rightarrow> Throws | Returns bal \<Rightarrow>
      case NumberT P riskPercent_v of Throws \<Rightarrow> Throws | Returns rp \<Rightarrow>
      case NumberT P feePercent_v of Throws \<Rightarrow> Throws | Returns fp \<Rightarrow>
      case NumberT P (or_arg leverage_v (JNum (Fin 1))) of Throws \<Rightarrow> Throws | Returns lv \<Rightarrow>
        Returns
          (let rPct = jdiv R rp (Fin 100);
               fPct = jdiv R fp (Fin 100);
               lev = jmax (Fin 1) lv
           in if \<not> truthy_num e \<or> \<not> truthy_num s \<or> \<not> truthy_num bal \<or> \<not> truthy_num rPct
              then None
              else
                let sd = jabs (jsub R e s)
                in if jle sd (Fin 0) then None
                   else
                     let rv = jmul R bal rPct;
                         pos = jdiv R rv (jdiv R sd e);
                         un = jdiv R pos e;
                         nt = pos;
                         mr = jdiv R nt lev;
                         fees = jmul R nt fPct
                     in Some \<lparr>entry = e, stop = s, stopDist = sd, riskValue = rv,
                               positionUSDT = pos, units = un, notional = nt,
                               marginRequired = mr, estFees = fees\<rparr>))"

text \<open>
  A parser that accepts no string: it stands for \<open>P\<close> in the closed examples in which
  no string is ever parsed.
\<close>

definition no_parse :: str2num where
  "no_parse s = NaN"

section \<open>The journal and the equity series\<close>

text \<open>
  A journal entry, and the form it is saved from: the same four fields. The form holds
  the balances as the strings typed; a stored entry holds them as numbers.
\<close>

record journal =
  date :: string
  startBalance :: jsval
  endBalance :: jsval
  notes_text :: string

text \<open>
  \<^verbatim>\<open>a.localeCompare(b)\<close> on dates. Dates are the ASCII strings of a date input
  (\<^verbatim>\<open>YYYY-MM-DD\<close>, or empty), which every collation orders as the lexicographic
  order of their characters does.
\<close>

definition localeCompare :: "string \<Rightarrow> string \<Rightarrow> int" where
  "localeCompare a b = (if a < b then - 1 else if a = b then 0 else 1)"

text \<open>
  \<^verbatim>\<open>Array.prototype.sort\<close> with a comparator: a stable sort, here by insertion. An
  element goes before the first one it does not compare greater than.
\<close>

fun insert_sorted :: "('a \<Rightarrow> 'a \<Rightarrow> int) \<Rightarrow> 'a \<Rightarrow> 'a list \<Rightarrow> 'a list" where
  "insert_sorted cmp x [] = [x]"
| "insert_sorted cmp x (y # ys) =
     (if cmp x y \<le> 0 then x # y # ys else y # insert_sorted cmp x ys)"

definition array_sort :: "('a \<Rightarrow> 'a \<Rightarrow> int) \<Rightarrow> 'a list \<Rightarrow> 'a list" where
  "array_sort cmp xs = foldr (insert_sorted cmp) xs []"

record equity_row =
  index :: nat
  row_date :: string
  start :: jsnum
  end_bal :: jsnum
  pl :: jsnum
  retPct :: jsnum

text \<open>The callback of \<^verbatim>\<open>sorted.map((e, i) => ...)\<close>, at position \<open>i\<close> (from 0).\<close>

definition equity_row_of :: "rounding \<Rightarrow> str2num \<Rightarrow> nat \<Rightarrow> journal \<Rightarrow> equity_row" where
  "equity_row_of R P i e =
     (let st = Number P (jor (startBalance e) (JNum (Fin 0)));
          en = Number P (jor (endBalance e) (JNum (Fin 0)));
          p = jsub R en st;
          rp = (if jgt st (Fin 0) then jmul R (jdiv R p st) (Fin 100) else Fin 0)
      in \<lparr>index = i + 1, row_date = date e, start = st, end_bal = en, pl = p,
          retPct = rp\<rparr>)"

definition equity :: "rounding \<Rightarrow> str2num \<Rightarrow> journal list \<Rightarrow> equity_row list" where
  "equity R P entries =
     (let sorted_entries = array_sort (\<lambda>a b. localeCompare (date a) (date b)) entries
      in map (\<lambda>(i, e). equity_row_of R P i e) (enumerate 0 sorted_entries))"

text \<open>
  \<^verbatim>\<open>monthStats\<close>. The year-month \<open>ym\<close> (\<^verbatim>\<open>YYYY-MM\<close>) is read from the clock in the
  source; here it is an argument.
\<close>

record month_stats =
  ms_pl :: jsnum
  ms_retPct :: jsnum

definition monthStats :: "rounding \<Rightarrow> string \<Rightarrow> equity_row list \<Rightarrow> month_stats" where
  "monthStats R ym eq =
     (let monthRows = filter (\<lambda>r. prefix ym (row_date r)) eq;
          p = foldl (\<lambda>s r. jadd R s (pl r)) (Fin 0) monthRows;
          st = (case monthRows of [] \<Rightarrow> Fin 0 | r # _ \<Rightarrow> start r);
          rp = (if jgt st (Fin 0) then jmul R (jdiv R p st) (Fin 100) else Fin 0)
      in \<lparr>ms_pl = p, ms_retPct = rp\<rparr>)"

text \<open>The row of the form's date, if any: \<^verbatim>\<open>equity.find((r) => r.date === form.date)\<close>.\<close>

definition dailyRow :: "equity_row list \<Rightarrow> string \<Rightarrow> equity_row option" where
  "dailyRow eq form_date = find (\<lambda>r. row_date r = form_date) eq"

definition dailyLossExceeded ::
  "rounding \<Rightarrow> str2num \<Rightarrow> equity_row option \<Rightarrow> jsval \<Rightarrow> bool" where
  "dailyLossExceeded R P row maxDailyLossPercent =
     (case row of
        None \<Rightarrow> False
      | Some r \<Rightarrow>
          if jle (start r) (Fin 0) then False
          else
            let lossPct =
                  (if jlt (pl r) (Fin 0) then jmul R (jdiv R (jabs (pl r)) (start r)) (Fin 100)
                   else Fin 0)
            in jge lossPct (Number P (jor maxDailyLossPercent (JNum (Fin 0)))))"

definition dailyTargetHit ::
  "rounding \<Rightarrow> str2num \<Rightarrow> equity_row option \<Rightarrow> jsval \<Rightarrow> bool" where
  "dailyTargetHit R P row dailyTargetPercent =
     (case row of
        None \<Rightarrow> False
      | Some r \<Rightarrow>
          if jle (start r) (Fin 0) then False
          else
            let ret = jmul R (jdiv R (pl r) (start r)) (Fin 100)
            in jge ret (Number P (jor dailyTargetPercent (JNum (Fin 0)))))"

section \<open>The store: \<^verbatim>\<open>addOrUpdateEntry\<close> and \<^verbatim>\<open>removeEntry\<close>\<close>

text \<open>\<^verbatim>\<open>findIndex\<close>: the first position that satisfies the test; \<open>None\<close> is \<^verbatim>\<open>-1\<close>.\<close>

fun findIndex :: "('a \<Rightarrow> bool) \<Rightarrow> 'a list \<Rightarrow> nat option" where
  "findIndex t [] = None"
| "findIndex t (x # xs) = (if t x then Some 0 else map_option Suc (findIndex t xs))"

text \<open>
  The entry saved from the form. \<^verbatim>\<open>String.prototype.trim\<close> is a parameter, as the
  parser of numbers is.
\<close>

definition payload_of :: "str2num \<Rightarrow> (string \<Rightarrow> string) \<Rightarrow> journal \<Rightarrow> journal" where
  "payload_of P trim form =
     \<lparr>date = date form,
      startBalance = JNum (Number P (jor (startBalance form) (JNum (Fin 0)))),
      endBalance = JNum (Number P (jor (endBalance form) (JNum (Fin 0)))),
      notes_text = trim (if notes_text form \<noteq> [] then notes_text form else [])\<rparr>"

text \<open>The state is the list \<^verbatim>\<open>entries\<close>; the handler returns the list it sets.\<close>

definition addOrUpdateEntry ::
  "str2num \<Rightarrow> (string \<Rightarrow> string) \<Rightarrow> journal \<Rightarrow> journal list \<Rightarrow> journal list" where
  "addOrUpdateEntry P trim form entries =
     (let idx = findIndex (\<lambda>x. date x = date form) entries;
          payload = payload_of P trim form
      in case idx of
           Some i \<Rightarrow> entries[i := payload]
         | None \<Rightarrow> entries @ [payload])"

definition removeEntry :: "string \<Rightarrow> journal list \<Rightarrow> journal list" where
  "removeEntry d entries = filter (\<lambda>x. date x \<noteq> d) entries"

section \<open>The CSV export\<close>

text \<open>\<^verbatim>\<open>Array.prototype.join\<close> on strings.\<close>

fun join :: "string \<Rightarrow> string list \<Rightarrow> string" where
  "join sep [] = []"
| "join sep [x] = x"
| "join sep (x # y # ys) = x @ sep @ join sep (y # ys)"

text \<open>\<^verbatim>\<open>s.replace(/,/g, ";")\<close>.\<close>

definition replace_commas :: "string \<Rightarrow> string" where
  "replace_commas s = map (\<lambda>c. if c = CHR '','' then CHR '';'' else c) s"

text \<open>\<^verbatim>\<open>entries.find(e => e.date === r.date)?.notes || ""\<close>.\<close>

definition notes_for :: "journal list \<Rightarrow> string \<Rightarrow> string" where
  "notes_for entries d =
     (case find (\<lambda>e. date e = d) entries of None \<Rightarrow> [] | Some e \<Rightarrow> notes_text e)"

definition csv_header :: "string list" where
  "csv_header = [''date'', ''startBalance'', ''endBalance'', ''pl'', ''retPct'', ''notes'']"

text \<open>
  The fields of a row, before they are joined. \<^verbatim>\<open>join\<close> renders a number with
  \<^verbatim>\<open>Number.prototype.toString\<close>, the parameter \<open>toStr\<close>.
\<close>

definition csv_fields :: "(jsnum \<Rightarrow> string) \<Rightarrow> journal list \<Rightarrow> equity_row \<Rightarrow> string list" where
  "csv_fields toStr entries r =
     [row_date r, toStr (start r), toStr (end_bal r), toStr (pl r), toStr (retPct r),
      replace_commas (notes_for entries (row_date r))]"

definition csv_lines :: "(jsnum \<Rightarrow> string) \<Rightarrow> equity_row list \<Rightarrow> journal list \<Rightarrow> string list" where
  "csv_lines toStr eq entries =
     join '','' csv_header # map (\<lambda>r. join '','' (csv_fields toStr entries r)) eq"

definition csv :: "(jsnum \<Rightarrow> string) \<Rightarrow> equity_row list \<Rightarrow> journal list \<Rightarrow> string" where
  "csv toStr eq entries = join [CHR 0x0A] (csv_lines toStr eq entries)"

text \<open>
  Reading the file back: \<^verbatim>\<open>s.split(c)\<close> for a one-character separator. It is the
  measure of "lines" and "fields" in the properties of the export.
\<close>

fun split_on :: "char \<Rightarrow> string \<Rightarrow> string list" where
  "split_on c [] = [[]]"
| "split_on c (x # xs) =
     (if x = c then [] # split_on c xs
      else (case split_on c xs of [] \<Rightarrow> [[x]] | f # fs \<Rightarrow> (x # f) # fs))"

section \<open>Notions of the specification and example data\<close>

text \<open>The sum of a list of numbers, as the specification words it, from the right.\<close>

fun jsum :: "rounding \<Rightarrow> jsnum list \<Rightarrow> jsnum" where
  "jsum R [] = Fin 0"
| "jsum R (x # xs) = jadd R x (jsum R xs)"

text \<open>
  The plan of the specification's example: in exact arithmetic, with a margin of 2000/3,
  and as the engine computes it, with the binary64 values nearest to 2000/3 and 0.8.
\<close>

definition example_plan :: position where
  "example_plan =
     \<lparr>entry = Fin 100, stop = Fin 95, stopDist = Fin 5, riskValue = Fin 100,
      positionUSDT = Fin 2000, units = Fin 20, notional = Fin 2000,
      marginRequired = Fin (2000 / 3), estFees = Fin 0.8\<rparr>"

definition example_plan64 :: position where
  "example_plan64 =
     \<lparr>entry = Fin 100, stop = Fin 95, stopDist = Fin 5, riskValue = Fin 100,
      positionUSDT = Fin 2000, units = Fin 20, notional = Fin 2000,
      marginRequired = round64 (2000 / 3), estFees = round64 0.8\<rparr>"

text \<open>The two journal entries of the specification's example.\<close>

definition example_entries :: "journal list" where
  "example_entries =
     [\<lparr>date = ''2024-01-01'', startBalance = JNum (Fin 1000), endBalance = JNum (Fin 1050),
       notes_text = ''''\<rparr>,
      \<lparr>date = ''2024-01-02'', startBalance = JNum (Fin 1050), endBalance = JNum (Fin 1020),
       notes_text = ''''\<rparr>]"

text \<open>
  Stand-ins for the engine in closed examples. \<open>parse_digits\<close> is \<^verbatim>\<open>StringToNumber\<close> on
  the empty string and on strings of decimal digits, and reads no number in \<^verbatim>\<open>abc\<close>;
  \<open>toString_int\<close> is \<^verbatim>\<open>Number.prototype.toString\<close> on the special values and on the
  integers below \<open>10^21\<close>; \<open>trim_ascii\<close> is \<^verbatim>\<open>String.prototype.trim\<close> on ASCII strings.
  The examples use them on such arguments only.
\<close>

definition digit_chars :: string where
  "digit_chars = ''0123456789''"

definition parse_digits :: str2num where
  "parse_digits s =
     (if s = [] then Fin 0
      else if \<forall>c \<in> set s. c \<in> set digit_chars
      then Fin (real (foldl (\<lambda>a c. 10 * a + (of_char c - 48)) 0 s))
      else NaN)"

fun digits :: "nat \<Rightarrow> string" where
  "digits n =
     (if n < 10 then [digit_chars ! n] else digits (n div 10) @ [digit_chars ! (n mod 10)])"

declare digits.simps [simp del]

definition toString_int :: "jsnum \<Rightarrow> string" where
  "toString_int n =
     (case n of
        NaN \<Rightarrow> ''NaN''
      | PInf \<Rightarrow> ''Infinity''
      | NInf \<Rightarrow> ''-Infinity''
      | Fin x \<Rightarrow> (if x < 0 then ''-'' else '''') @ digits (nat \<lfloor>\<bar>x\<bar>\<rfloor>))"

definition is_space :: "char \<Rightarrow> bool" where
  "is_space c = (c \<in> set [CHR 0x09, CHR 0x0A, CHR 0x0B, CHR 0x0C, CHR 0x0D, CHR '' ''])"

definition trim_ascii :: "string \<Rightarrow> string" where
  "trim_ascii s = rev (dropWhile is_space (rev (dropWhile is_space s)))"

text \<open>A form that edits the second day of the example, and a form for a third day.\<close>

definition example_form_edit :: journal where
  "example_form_edit =
     \<lparr>date = ''2024-01-02'', startBalance = JStr ''1050'', endBalance = JStr ''1080'',
      notes_text = '' late reversal ''\<rparr>"

definition example_form_new :: journal where
  "example_form_new =
     \<lparr>date = ''2024-01-03'', startBalance = JStr ''1020'', endBalance = JStr '''',
      notes_text = ''''\<rparr>"

text \<open>A journal of one day whose note holds a comma.\<close>

definition one_day_entries :: "journal list" where
  "one_day_entries =
     [\<lparr>date = ''2024-01-01'', startBalance = JNum (Fin 1000), endBalance = JNum (Fin 1050),
       notes_text = ''breakout, held''\<rparr>]"

text \<open>A journal of one flat day whose note runs over two lines.\<close>

definition two_line_entries :: "journal list" where
  "two_line_entries =
     [\<lparr>date = ''2024-01-01'', startBalance = JNum (Fin 1000), endBalance = JNum (Fin 1000),
       notes_text = [CHR ''a'', CHR 0x0A, CHR ''b'']\<rparr>]"

section \<open>Properties of the rounding\<close>

lemma pow2_pos [simp]: "0 < pow2 k"
  by (simp add: pow2_def)

lemma pow2_neq_0 [simp]: "pow2 k \<noteq> 0"
  by (simp add: pow2_def)

lemma pow2_not_le_0: "\<not> pow2 k \<le> 0"
  by (simp add: not_le)

lemma pow2_powr: "pow2 k = 2 powr (real_of_int k)"
proof (cases "0 \<le> k")
  case True
  then have "2 powr (real_of_int k) = 2 powr (real (nat k))" by simp
  also have "\<dots> = 2 ^ nat k" by (rule powr_realpow) simp
  finally show ?thesis using True by (simp add: pow2_def)
next
  case False
  then have "2 powr (real_of_int k) = 2 powr (- real (nat (- k)))" by simp
  also have "\<dots> = 1 / 2 powr (real (nat (- k)))" by (simp add: powr_minus_divide)
  also have "\<dots> = 1 / 2 ^ nat (- k)" by (simp add: powr_realpow)
  finally show ?thesis using False by (simp add: pow2_def)
qed

lemma pow2_mono: "j \<le> k \<Longrightarrow> pow2 j \<le> pow2 k"
  by (simp add: pow2_powr)

lemma pow2_le_iff: "(pow2 j \<le> pow2 k) = (j \<le> k)"
  by (simp add: pow2_powr)

lemma pow2_add: "pow2 (j + k) = pow2 j * pow2 k"
  by (simp add: pow2_powr powr_add)

lemma expo_le:
  assumes "0 < x"
  shows "pow2 (expo x) \<le> x"
proof (cases "1 \<le> x")
  case True
  define n where "n = nat \<lfloor>x\<rfloor>"
  define k where "k = floorlog 2 n"
  from True have n: "0 < n" and nx: "real n \<le> x"
    by (simp_all add: n_def)
  from n have b: "2 ^ (k - 1) \<le> n"
    unfolding k_def using floorlog_bounds [of n 2] by simp
  from n have k: "0 < k"
    unfolding k_def by (simp add: floorlog_def)
  have "pow2 (expo x) = 2 ^ (k - 1)"
    using True k by (simp add: expo_def pow2_def n_def k_def nat_diff_distrib)
  also have "\<dots> \<le> real n"
  proof -
    from b have "real (2 ^ (k - 1)) \<le> real n" by (simp only: of_nat_le_iff)
    then show ?thesis by simp
  qed
  finally show ?thesis using nx by simp
next
  case False
  define n where "n = nat (\<lceil>1 / x\<rceil> - 1)"
  define k where "k = floorlog 2 n"
  from False assms have "1 < 1 / x" by simp
  then have c: "2 \<le> \<lceil>1 / x\<rceil>" by (simp add: le_ceiling_iff) 
  then have n: "0 < n" by (simp add: n_def)
  then have k: "0 < k"
    unfolding k_def by (simp add: floorlog_def)
  from n have "n < 2 ^ k"
    unfolding k_def using floorlog_bounds [of n 2] by simp
  then have "Suc n \<le> 2 ^ k" by simp
  then have "int (Suc n) \<le> int (2 ^ k)" by (simp only: of_nat_le_iff)
  then have "int n + 1 \<le> 2 ^ k" by simp
  moreover from c have "int n = \<lceil>1 / x\<rceil> - 1"
    unfolding n_def by linarith
  ultimately have "\<lceil>1 / x\<rceil> \<le> 2 ^ k" by simp
  then have "1 / x \<le> 2 ^ k"
    by (simp add: ceiling_le_iff)
  with assms have "1 / 2 ^ k \<le> x"
    by (simp add: field_simps)
  moreover have "pow2 (expo x) = 1 / 2 ^ k"
    using False k by (simp add: expo_def pow2_def n_def k_def)
  ultimately show ?thesis by simp
qed


lemma expo_less:
  assumes "0 < x"
  shows "x < pow2 (expo x + 1)"
proof (cases "1 \<le> x")
  case True
  define n where "n = nat \<lfloor>x\<rfloor>"
  define k where "k = floorlog 2 n"
  from True have n: "0 < n" by (simp add: n_def)
  from True have xn: "x < real n + 1"
    unfolding n_def by linarith
  from n have "n < 2 ^ k"
    unfolding k_def using floorlog_bounds [of n 2] by simp
  then have "Suc n \<le> 2 ^ k" by simp
  then have "real (Suc n) \<le> real (2 ^ k)" by (simp only: of_nat_le_iff)
  then have "real n + 1 \<le> 2 ^ k" by simp
  moreover have "pow2 (expo x + 1) = 2 ^ k"
    using True by (simp add: expo_def pow2_def n_def k_def)
  ultimately show ?thesis using xn by simp
next
  case False
  define n where "n = nat (\<lceil>1 / x\<rceil> - 1)"
  define k where "k = floorlog 2 n"
  from False assms have "1 < 1 / x" by simp
  then have c: "2 \<le> \<lceil>1 / x\<rceil>" by (simp add: le_ceiling_iff)
  then have n: "0 < n" by (simp add: n_def)
  then have k: "0 < k"
    unfolding k_def by (simp add: floorlog_def)
  from c have i: "int n = \<lceil>1 / x\<rceil> - 1"
    unfolding n_def by linarith
  from n have "2 ^ (k - 1) \<le> n"
    unfolding k_def using floorlog_bounds [of n 2] by simp
  then have "real (2 ^ (k - 1)) \<le> real n" by (simp only: of_nat_le_iff)
  then have "2 ^ (k - 1) \<le> real_of_int (int n)" by simp
  also have "\<dots> < 1 / x"
    unfolding i by linarith
  finally have "2 ^ (k - 1) < 1 / x" .
  with assms have "x < 1 / 2 ^ (k - 1)"
    by (simp add: field_simps)
  moreover have "pow2 (expo x + 1) = 1 / 2 ^ (k - 1)"
  proof (cases "k = 1")
    case True
    with False show ?thesis by (simp add: expo_def pow2_def n_def k_def)
  next
    case k1: False
    with k have "1 < k" by simp
    with False show ?thesis
      by (simp add: expo_def pow2_def n_def k_def nat_diff_distrib)
  qed
  ultimately show ?thesis by simp
qed

lemma round_even_ge_1: "1 / 2 < m \<Longrightarrow> 1 \<le> round_even m"
proof -
  assume m: "1 / 2 < m"
  then have f: "0 \<le> \<lfloor>m\<rfloor>" by simp
  show ?thesis
  proof (cases "\<lfloor>m\<rfloor> = 0")
    case True
    with m show ?thesis by (simp add: round_even_def Let_def)
  next
    case False
    with f have "1 \<le> \<lfloor>m\<rfloor>" by linarith
    then show ?thesis by (auto simp: round_even_def Let_def)
  qed
qed

lemma round_even_0: "0 \<le> m \<Longrightarrow> m \<le> 1 / 2 \<Longrightarrow> round_even m = 0"
proof -
  assume a: "0 \<le> m" "m \<le> 1 / 2"
  then have "\<lfloor>m\<rfloor> = 0" by (simp add: floor_eq_iff)
  with a show ?thesis by (simp add: round_even_def Let_def)
qed

lemma round64_pos_zero_iff:
  assumes "0 < x"
  shows "(round64 x = Fin 0) = (x \<le> pow2 (- 1075))"
proof (cases "x \<le> pow2 (- 1075)")
  case True
  have "pow2 (expo x) \<le> pow2 (- 1075)"
    using expo_le [OF assms] True by simp
  then have e: "expo x \<le> - 1075" by (simp add: pow2_le_iff)
  then have k: "max (expo x) (- 1022) - 52 = - 1074" by simp
  have "pow2 (- 1075) = pow2 (- 1074) * (1 / 2)"
    using pow2_add [of "- 1074" "- 1"] by (simp add: pow2_def)
  with True have "x / pow2 (- 1074) \<le> 1 / 2"
    by (simp add: field_simps)
  moreover have "0 \<le> x / pow2 (- 1074)"
    using assms by (intro divide_nonneg_pos) simp_all
  ultimately have "round_even (x / pow2 (- 1074)) = 0" by (rule round_even_0 [rotated])
  with assms k True show ?thesis
    by (simp add: round64_def Let_def pow2_not_le_0)
next
  case False
  define k where "k = max (expo x) (- 1022) - 52"
  have "1 / 2 < x / pow2 k"
  proof (cases "expo x \<le> - 1022")
    case True
    then have "k = - 1074" by (simp add: k_def)
    moreover have "pow2 (- 1075) = pow2 (- 1074) * (1 / 2)"
      using pow2_add [of "- 1074" "- 1"] by (simp add: pow2_def)
    ultimately show ?thesis using False by (simp add: field_simps)
  next
    case e: False
    then have "k = expo x - 52" by (simp add: k_def)
    then have "pow2 (expo x) = pow2 k * pow2 52"
      using pow2_add [of k 52] by simp
    with expo_le [OF assms] have a: "pow2 k * pow2 52 \<le> x" by simp
    have "(1::real) < pow2 52" by (simp add: pow2_def)
    then have "pow2 k * 1 < pow2 k * pow2 52"
      by (intro mult_strict_left_mono) simp_all
    with a pow2_pos [of k] have "pow2 k / 2 < x" by linarith
    then show ?thesis by (simp add: field_simps)
  qed
  then have \<open>1 \<le> round_even (x / pow2 k)\<close> by (rule round_even_ge_1)
  define y where "y = real_of_int (round_even (x / pow2 k)) * pow2 k"
  have y: "0 < y"
    unfolding y_def using \<open>1 \<le> round_even (x / pow2 k)\<close> by simp
  have "round64 x = (if pow2 1024 \<le> y then PInf else Fin y)"
    using assms by (simp add: round64_def Let_def k_def y_def)
  with y have "round64 x \<noteq> Fin 0" by auto
  with False show ?thesis by simp
qed

lemma round64_neg_zero_iff:
  assumes "x < 0"
  shows "(round64 x = Fin 0) = (round64 (- x) = Fin 0)"
proof -
  define y where
    "y = real_of_int (round_even (\<bar>x\<bar> / pow2 (max (expo \<bar>x\<bar>) (- 1022) - 52))) *
           pow2 (max (expo \<bar>x\<bar>) (- 1022) - 52)"
  have "round64 x = (if pow2 1024 \<le> y then NInf else Fin (- y))"
    using assms by (simp add: round64_def Let_def y_def)
  moreover have "round64 (- x) = (if pow2 1024 \<le> y then PInf else Fin y)"
    using assms by (simp add: round64_def Let_def y_def)
  ultimately show ?thesis by auto
qed

lemma round64_zero_iff: "(round64 x = Fin 0) = (\<bar>x\<bar> \<le> pow2 (- 1075))"
proof -
  consider "x = 0" | "0 < x" | "x < 0" by linarith
  then show ?thesis
  proof cases
    case 1
    then show ?thesis
      using pow2_pos [of "- 1075"] by (simp add: round64_def less_imp_le)
  next
    case 2
    then show ?thesis by (simp add: round64_pos_zero_iff)
  next
    case 3
    then have "(round64 x = Fin 0) = (round64 (- x) = Fin 0)"
      by (rule round64_neg_zero_iff)
    also have "\<dots> = (- x \<le> pow2 (- 1075))"
      using 3 by (intro round64_pos_zero_iff) simp
    finally show ?thesis using 3 by simp
  qed
qed

lemma round64_not_NaN: "round64 x \<noteq> NaN"
  by (simp add: round64_def Let_def)

lemma truthy_round64: "truthy_num (round64 x) = (pow2 (- 1075) < \<bar>x\<bar>)"
  using round64_zero_iff [of x] round64_not_NaN [of x]
  by (auto simp: truthy_num_def)

lemma binary64_multiple:
  assumes "is_binary64 x"
  shows "\<exists>n::int. x = of_int n * pow2 (- 1074)"
proof (cases "x = 0")
  case True
  then show ?thesis by (intro exI [of _ 0]) simp
next
  case False
  define k where "k = max (expo \<bar>x\<bar>) (- 1022) - 52"
  define m where "m = round_even (\<bar>x\<bar> / pow2 k)"
  have k: "0 \<le> k + 1074" by (simp add: k_def)
  have "pow2 k = pow2 (k + 1074) * pow2 (- 1074)"
    using pow2_add [of "k + 1074" "- 1074"] by simp
  also have "pow2 (k + 1074) = of_int (2 ^ nat (k + 1074))"
    using k by (simp add: pow2_def)
  finally have q: "pow2 k = of_int (2 ^ nat (k + 1074)) * pow2 (- 1074)" .
  have r: "round64 x =
      (if pow2 1024 \<le> of_int m * pow2 k then (if 0 < x then PInf else NInf)
       else Fin (if 0 < x then of_int m * pow2 k else - (of_int m * pow2 k)))"
    using False by (simp add: round64_def Let_def k_def m_def)
  from assms have "round64 x = Fin x" by (simp add: is_binary64_def)
  with r have "x = (if 0 < x then of_int m * pow2 k else - (of_int m * pow2 k))"
    by (auto split: if_splits)
  then have "x = of_int (if 0 < x then m * 2 ^ nat (k + 1074) else - (m * 2 ^ nat (k + 1074))) *
                   pow2 (- 1074)"
    unfolding q by (auto split: if_splits)
  then show ?thesis by blast
qed

lemma binary64_diff:
  assumes "is_binary64 x" and "is_binary64 y" and "x \<noteq> y"
  shows "pow2 (- 1075) < \<bar>x - y\<bar>"
proof -
  from assms(1) obtain n :: int where n: "x = of_int n * pow2 (- 1074)"
    using binary64_multiple by blast
  from assms(2) obtain m :: int where m: "y = of_int m * pow2 (- 1074)"
    using binary64_multiple by blast
  from assms(3) n m have "n \<noteq> m" by auto
  then have "1 \<le> \<bar>n - m\<bar>" by linarith
  then have "(1::real) \<le> \<bar>of_int (n - m)\<bar>"
    by (metis of_int_1_le_iff of_int_abs)
  then have a: "1 * pow2 (- 1074) \<le> \<bar>of_int (n - m)\<bar> * pow2 (- 1074)"
    by (intro mult_right_mono) (simp_all add: less_imp_le)
  have "x - y = of_int (n - m) * pow2 (- 1074)"
    by (simp add: n m algebra_simps)
  then have b: "\<bar>x - y\<bar> = \<bar>of_int (n - m)\<bar> * pow2 (- 1074)"
    using pow2_pos [of "- 1074"] by (simp only: abs_mult abs_of_pos)
  have c: "pow2 (- 1075) < pow2 (- 1074)"
    by (simp add: pow2_powr)
  from a b c show ?thesis by linarith
qed

lemma binary64_sub_zero_iff:
  assumes "is_binary64 x" and "is_binary64 y"
  shows "(round64 (x - y) = Fin 0) = (x = y)"
proof (cases "x = y")
  case True
  then show ?thesis by (simp add: round64_def)
next
  case False
  with assms have "pow2 (- 1075) < \<bar>x - y\<bar>" by (rule binary64_diff)
  with False show ?thesis by (simp add: round64_zero_iff)
qed

lemma is_binary64_least: "is_binary64 (pow2 (- 1074))"
proof -
  define x where "x = pow2 (- 1074)"
  define k where "k = max (expo \<bar>x\<bar>) (- 1022) - 52"
  define m where "m = round_even (\<bar>x\<bar> / pow2 k)"
  have p: "0 < x" by (simp add: x_def)
  then have ax: "\<bar>x\<bar> = x" by (rule abs_of_pos)
  have r: "round64 x =
      (if pow2 1024 \<le> of_int m * pow2 k then PInf else Fin (of_int m * pow2 k))"
    using p by (simp add: round64_def Let_def k_def m_def)
  have "pow2 (expo x) \<le> pow2 (- 1074)"
    using expo_le [OF p] by (simp add: x_def)
  then have "expo x \<le> - 1074" by (simp add: pow2_le_iff)
  then have k: "k = - 1074" by (simp add: k_def ax)
  have d: "\<bar>x\<bar> / pow2 k = 1" by (simp add: k ax) (simp add: x_def)
  have m: "m = 1" unfolding m_def d by (simp add: round_even_def)
  have o: "\<not> pow2 1024 \<le> pow2 (- 1074)" by (simp add: pow2_le_iff)
  have "round64 x = Fin x"
    unfolding r m k using o by (simp add: x_def)
  then show ?thesis by (simp add: is_binary64_def x_def)
qed

text \<open>The equations that evaluate a rounding at a numeral.\<close>

lemmas r64 = round64_def pow2_def expo_def round_even_def Let_def compute_floorlog

text \<open>The binary64 value of one tenth, \<^verbatim>\<open>0x3FB999999999999A\<close>.\<close>

lemma round64_tenth: "round64 (1 / 10) = Fin (3602879701896397 / 2 ^ 55)"
  by (simp add: r64)

section \<open>Position sizing\<close>

lemma falsy_num_iff: "(\<not> truthy_num n) = (n = Fin 0 \<or> n = NaN)"
  by (auto simp: truthy_num_def)

lemma jmax_1_leverage: "jmax (Fin 1) (Number P (jor (JNum (Fin l)) (JNum (Fin 1)))) = Fin (max 1 l)"
  by (simp add: jor_def truthy_num_def)

lemma falsy_div_100_exact:
  "(jdiv Fin n (Fin 100) = Fin 0 \<or> jdiv Fin n (Fin 100) = NaN) = (n = Fin 0 \<or> n = NaN)"
  by (cases n) (simp_all add: inf_of_sign_def)

lemma falsy_div_100_binary64:
  "(jdiv round64 n (Fin 100) = Fin 0 \<or> jdiv round64 n (Fin 100) = NaN) =
     (n = NaN \<or> (\<exists>r. n = Fin r \<and> \<bar>r\<bar> / 100 \<le> pow2 (- 1075)))"
  by (cases n) (simp_all add: inf_of_sign_def round64_zero_iff round64_not_NaN)

lemma zero_div_100: "R 0 = Fin 0 \<Longrightarrow> jdiv R (Fin 0) (Fin 100) = Fin 0"
  by simp

lemma stopDist_le_0_binary64:
  assumes "is_binary64 x" and "is_binary64 y"
  shows "jle (jabs (jsub round64 (Fin x) (Fin y))) (Fin 0) = (x = y)"
proof -
  have "jle (jabs (round64 (x - y))) (Fin 0) = (round64 (x - y) = Fin 0)"
    by (cases "round64 (x - y)") auto
  then show ?thesis
    using assms by (simp add: binary64_sub_zero_iff)
qed

lemma calcPosition_Throws_iff:
  "(calcPosition R P a1 a2 a3 a4 a5 a6 = Throws) =
     (a1 = JSymbol \<or> a2 = JSymbol \<or> a3 = JSymbol \<or> a4 = JSymbol \<or> a5 = JSymbol \<or>
      a6 = JSymbol)"
  by (cases a1; cases a2; cases a3; cases a4; cases a5; cases a6)
    (simp_all add: calcPosition_def)

lemma calcPosition_None_iff:
  "(calcPosition R P (Prim ev) (Prim sv) (Prim bv) (Prim rv) (Prim fv) (Prim lv) =
      Returns None) =
     (\<not> truthy_num (Number P ev) \<or> \<not> truthy_num (Number P sv) \<or>
      \<not> truthy_num (Number P bv) \<or> \<not> truthy_num (jdiv R (Number P rv) (Fin 100)) \<or>
      jle (jabs (jsub R (Number P ev) (Number P sv))) (Fin 0))"
  by (auto simp add: calcPosition_def Let_def)

lemma calcPosition_Some_fields:
  assumes "calcPosition R P (Prim ev) (Prim sv) (Prim bv) (Prim rv) (Prim fv) (Prim lv) =
             Returns (Some p)"
  shows "stopDist p = jabs (jsub R (Number P ev) (Number P sv))"
    and "riskValue p = jmul R (Number P bv) (jdiv R (Number P rv) (Fin 100))"
    and "positionUSDT p = jdiv R (riskValue p) (jdiv R (stopDist p) (Number P ev))"
    and "notional p = positionUSDT p"
    and "units p = jdiv R (positionUSDT p) (Number P ev)"
    and "marginRequired p =
           jdiv R (positionUSDT p) (jmax (Fin 1) (Number P (jor lv (JNum (Fin 1)))))"
    and "estFees p = jmul R (positionUSDT p) (jdiv R (Number P fv) (Fin 100))"
  using assms by (auto simp: calcPosition_def Let_def split: if_splits)

lemma calcPosition_Returns_Prim:
  assumes "calcPosition R P a1 a2 a3 a4 a5 a6 = Returns x"
  shows "\<exists>ev sv bv rv fv lv.
           a1 = Prim ev \<and> a2 = Prim sv \<and> a3 = Prim bv \<and> a4 = Prim rv \<and> a5 = Prim fv \<and>
           a6 = Prim lv"
proof -
  from assms have "calcPosition R P a1 a2 a3 a4 a5 a6 \<noteq> Throws" by simp
  then have "a1 \<noteq> JSymbol \<and> a2 \<noteq> JSymbol \<and> a3 \<noteq> JSymbol \<and> a4 \<noteq> JSymbol \<and>
             a5 \<noteq> JSymbol \<and> a6 \<noteq> JSymbol"
    by (simp add: calcPosition_Throws_iff)
  then show ?thesis
    by (cases a1; cases a2; cases a3; cases a4; cases a5; cases a6) simp_all
qed

lemma calcPosition_example:
  "calcPosition Fin no_parse (Prim (JNum (Fin 100))) (Prim (JNum (Fin 95)))
     (Prim (JNum (Fin 10000))) (Prim (JNum (Fin 1))) (Prim (JNum (Fin 0.04)))
     (Prim (JNum (Fin 3))) = Returns (Some example_plan)"
  by (simp add: calcPosition_def Let_def truthy_num_def jor_def example_plan_def)

lemma calcPosition_example64:
  "calcPosition round64 no_parse (Prim (JNum (Fin 100))) (Prim (JNum (Fin 95)))
     (Prim (JNum (Fin 10000))) (Prim (JNum (Fin 1))) (Prim (JNum (round64 0.04)))
     (Prim (JNum (Fin 3))) = Returns (Some example_plan64)"
  by (simp add: calcPosition_def truthy_num_def jor_def example_plan64_def r64)

lemma margin64_not_rounded: "round64 (2000 / 3) \<noteq> round64 666.67"
  by (simp add: r64)

text \<open>
  C1, as amended. Whenever \<^verbatim>\<open>calcPosition\<close> returns a plan, in the engine's arithmetic as
  in exact arithmetic, its fields are \<open>stopDist = |entry - stop|\<close>,
  \<open>riskValue = balance * (riskPercent / 100)\<close>,
  \<open>positionUSDT = riskValue / (stopDist / entry)\<close>, \<open>units = positionUSDT / entry\<close>,
  \<open>marginRequired = positionUSDT / max(1, leverage)\<close> (a blank or zero leverage counting
  as 1) and \<open>estFees = positionUSDT * (feePercent / 100)\<close>. For entry 100, stop 95, balance
  10000, risk 1, fee 0.04 and leverage 3 the plan has stopDist 5, riskValue 100, position
  2000, units 20, fees 0.8 and margin 2000/3 (in binary64, the values nearest to 0.8 and
  to 2000/3), which is 666.67 to two decimals.
\<close>

theorem calcPosition_formulas:
  "(\<forall>p. calcPosition R P (Prim ev) (Prim sv) (Prim bv) (Prim rv) (Prim fv) (Prim lv) =
         Returns (Some p) \<longrightarrow>
      stopDist p = jabs (jsub R (Number P ev) (Number P sv)) \<and>
      riskValue p = jmul R (Number P bv) (jdiv R (Number P rv) (Fin 100)) \<and>
      positionUSDT p = jdiv R (riskValue p) (jdiv R (stopDist p) (Number P ev)) \<and>
      notional p = positionUSDT p \<and>
      units p = jdiv R (positionUSDT p) (Number P ev) \<and>
      marginRequired p =
        jdiv R (positionUSDT p) (jmax (Fin 1) (Number P (jor lv (JNum (Fin 1))))) \<and>
      estFees p = jmul R (positionUSDT p) (jdiv R (Number P fv) (Fin 100)) \<and>
      (\<forall>l. lv = JNum (Fin l) \<longrightarrow>
         marginRequired p = jdiv R (positionUSDT p) (Fin (max 1 l)))) \<and>
   (\<forall>p. calcPosition R P a1 a2 a3 a4 a5 a6 = Returns (Some p) \<longrightarrow>
      (\<exists>ev sv bv rv fv lv.
         a1 = Prim ev \<and> a2 = Prim sv \<and> a3 = Prim bv \<and> a4 = Prim rv \<and> a5 = Prim fv \<and>
         a6 = Prim lv)) \<and>
   calcPosition Fin no_parse (Prim (JNum (Fin 100))) (Prim (JNum (Fin 95)))
     (Prim (JNum (Fin 10000))) (Prim (JNum (Fin 1))) (Prim (JNum (Fin 0.04)))
     (Prim (JNum (Fin 3))) =
     Returns (Some \<lparr>entry = Fin 100, stop = Fin 95, stopDist = Fin 5, riskValue = Fin 100,
           positionUSDT = Fin 2000, units = Fin 20, notional = Fin 2000,
           marginRequired = Fin (2000 / 3), estFees = Fin 0.8\<rparr>) \<and>
   calcPosition round64 no_parse (Prim (JNum (Fin 100))) (Prim (JNum (Fin 95)))
     (Prim (JNum (Fin 10000))) (Prim (JNum (Fin 1))) (Prim (JNum (round64 0.04)))
     (Prim (JNum (Fin 3))) =
     Returns (Some \<lparr>entry = Fin 100, stop = Fin 95, stopDist = Fin 5, riskValue = Fin 100,
           positionUSDT = Fin 2000, units = Fin 20, notional = Fin 2000,
           marginRequired = round64 (2000 / 3), estFees = round64 0.8\<rparr>) \<and>
   \<bar>2000 / 3 - 666.67\<bar> < (0.005 :: real)"
proof (intro conjI allI impI)
  fix p l
  assume p: "calcPosition R P (Prim ev) (Prim sv) (Prim bv) (Prim rv) (Prim fv) (Prim lv) =
               Returns (Some p)"
    and l: "lv = JNum (Fin l)"
  have "marginRequired p =
          jdiv R (positionUSDT p) (jmax (Fin 1) (Number P (jor lv (JNum (Fin 1)))))"
    using p by (rule calcPosition_Some_fields)
  then show "marginRequired p = jdiv R (positionUSDT p) (Fin (max 1 l))"
    by (simp only: l jmax_1_leverage)
next
  fix p
  assume "calcPosition R P a1 a2 a3 a4 a5 a6 = Returns (Some p)"
  then show "\<exists>ev sv bv rv fv lv.
         a1 = Prim ev \<and> a2 = Prim sv \<and> a3 = Prim bv \<and> a4 = Prim rv \<and> a5 = Prim fv \<and>
         a6 = Prim lv"
    by (rule calcPosition_Returns_Prim)
next
  show "calcPosition Fin no_parse (Prim (JNum (Fin 100))) (Prim (JNum (Fin 95)))
     (Prim (JNum (Fin 10000))) (Prim (JNum (Fin 1))) (Prim (JNum (Fin 0.04)))
     (Prim (JNum (Fin 3))) =
     Returns (Some \<lparr>entry = Fin 100, stop = Fin 95, stopDist = Fin 5, riskValue = Fin 100,
           positionUSDT = Fin 2000, units = Fin 20, notional = Fin 2000,
           marginRequired = Fin (2000 / 3), estFees = Fin 0.8\<rparr>)"
    using calcPosition_example by (simp add: example_plan_def)
next
  show "calcPosition round64 no_parse (Prim (JNum (Fin 100))) (Prim (JNum (Fin 95)))
     (Prim (JNum (Fin 10000))) (Prim (JNum (Fin 1))) (Prim (JNum (round64 0.04)))
     (Prim (JNum (Fin 3))) =
     Returns (Some \<lparr>entry = Fin 100, stop = Fin 95, stopDist = Fin 5, riskValue = Fin 100,
           positionUSDT = Fin 2000, units = Fin 20, notional = Fin 2000,
           marginRequired = round64 (2000 / 3), estFees = round64 0.8\<rparr>)"
    using calcPosition_example64 by (simp only: example_plan64_def)
next
  show "\<bar>2000 / 3 - 666.67\<bar> < (0.005 :: real)" by simp
qed (simp_all add: calcPosition_Some_fields)

text \<open>
  The formulas at a second input, with a blank leverage: entry 50, stop 55, balance 2000,
  risk 2, fee 0.1 give a position of 400 held on a margin of 400.
\<close>

theorem calcPosition_formulas_witness:
  "calcPosition Fin no_parse (Prim (JNum (Fin 50))) (Prim (JNum (Fin 55)))
     (Prim (JNum (Fin 2000))) (Prim (JNum (Fin 2))) (Prim (JNum (Fin 0.1))) (Prim (JStr '''')) =
     Returns (Some \<lparr>entry = Fin 50, stop = Fin 55, stopDist = Fin 5, riskValue = Fin 40,
           positionUSDT = Fin 400, units = Fin 8, notional = Fin 400,
           marginRequired = Fin 400, estFees = Fin 0.4\<rparr>) \<and>
   jdiv Fin (Fin 400) (jmax (Fin 1) (Number no_parse (jor (JStr '''') (JNum (Fin 1))))) =
     Fin 400"
proof -
  have h: "calcPosition Fin no_parse (Prim (JNum (Fin 50))) (Prim (JNum (Fin 55)))
     (Prim (JNum (Fin 2000))) (Prim (JNum (Fin 2))) (Prim (JNum (Fin 0.1))) (Prim (JStr '''')) =
     Returns (Some \<lparr>entry = Fin 50, stop = Fin 55, stopDist = Fin 5, riskValue = Fin 40,
           positionUSDT = Fin 400, units = Fin 8, notional = Fin 400,
           marginRequired = Fin 400, estFees = Fin 0.4\<rparr>)"
    by (simp add: calcPosition_def Let_def truthy_num_def jor_def)
  from calcPosition_formulas [of Fin no_parse "JNum (Fin 50)" "JNum (Fin 55)"
      "JNum (Fin 2000)" "JNum (Fin 2)" "JNum (Fin 0.1)" "JStr ''''"] h
  show ?thesis by simp
qed

text \<open>
  The example as the specification prints it, with a margin of 666.67, is not what the
  function returns: neither in exact arithmetic nor, reading 666.67 and 0.8 as binary64
  values, in the engine's.
\<close>

theorem calcPosition_example_margin_not_rounded:
  "calcPosition Fin no_parse (Prim (JNum (Fin 100))) (Prim (JNum (Fin 95)))
     (Prim (JNum (Fin 10000))) (Prim (JNum (Fin 1))) (Prim (JNum (Fin 0.04)))
     (Prim (JNum (Fin 3))) \<noteq>
     Returns (Some \<lparr>entry = Fin 100, stop = Fin 95, stopDist = Fin 5, riskValue = Fin 100,
           positionUSDT = Fin 2000, units = Fin 20, notional = Fin 2000,
           marginRequired = Fin 666.67, estFees = Fin 0.8\<rparr>) \<and>
   calcPosition round64 no_parse (Prim (JNum (Fin 100))) (Prim (JNum (Fin 95)))
     (Prim (JNum (Fin 10000))) (Prim (JNum (Fin 1))) (Prim (JNum (round64 0.04)))
     (Prim (JNum (Fin 3))) \<noteq>
     Returns (Some \<lparr>entry = Fin 100, stop = Fin 95, stopDist = Fin 5, riskValue = Fin 100,
           positionUSDT = Fin 2000, units = Fin 20, notional = Fin 2000,
           marginRequired = round64 666.67, estFees = round64 0.8\<rparr>)"
proof
  show "calcPosition Fin no_parse (Prim (JNum (Fin 100))) (Prim (JNum (Fin 95)))
     (Prim (JNum (Fin 10000))) (Prim (JNum (Fin 1))) (Prim (JNum (Fin 0.04)))
     (Prim (JNum (Fin 3))) \<noteq>
     Returns (Some \<lparr>entry = Fin 100, stop = Fin 95, stopDist = Fin 5, riskValue = Fin 100,
           positionUSDT = Fin 2000, units = Fin 20, notional = Fin 2000,
           marginRequired = Fin 666.67, estFees = Fin 0.8\<rparr>)"
    using calcPosition_example by (simp add: example_plan_def)
  show "calcPosition round64 no_parse (Prim (JNum (Fin 100))) (Prim (JNum (Fin 95)))
     (Prim (JNum (Fin 10000))) (Prim (JNum (Fin 1))) (Prim (JNum (round64 0.04)))
     (Prim (JNum (Fin 3))) \<noteq>
     Returns (Some \<lparr>entry = Fin 100, stop = Fin 95, stopDist = Fin 5, riskValue = Fin 100,
           positionUSDT = Fin 2000, units = Fin 20, notional = Fin 2000,
           marginRequired = round64 666.67, estFees = round64 0.8\<rparr>)"
    unfolding calcPosition_example64 example_plan64_def
    using margin64_not_rounded by simp
qed

text \<open>
  C2, as amended. On primitive arguments \<^verbatim>\<open>calcPosition\<close> returns \<^verbatim>\<open>null\<close> exactly when
  entry, stop or balance coerces to 0 or \<^verbatim>\<open>NaN\<close>, or the computed \<open>riskPercent / 100\<close> is 0
  or \<^verbatim>\<open>NaN\<close>, or the stop distance \<open>|entry - stop|\<close> is at most 0. In exact arithmetic the
  hundredth is 0 or \<^verbatim>\<open>NaN\<close> exactly when riskPercent is; in binary64 it is so exactly when
  riskPercent is \<^verbatim>\<open>NaN\<close> or at most \<open>100 * 2^-1075\<close> in magnitude, so also for the least
  positive number. Between binary64 values the stop distance is at most 0 exactly when
  entry equals stop. The call throws only on a symbol, so never on undefined, null, a
  boolean, a number or a string.
\<close>

theorem calcPosition_null_iff:
  "(calcPosition R P (Prim ev) (Prim sv) (Prim bv) (Prim rv) (Prim fv) (Prim lv) =
      Returns None) =
     (Number P ev = Fin 0 \<or> Number P ev = NaN \<or>
      Number P sv = Fin 0 \<or> Number P sv = NaN \<or>
      Number P bv = Fin 0 \<or> Number P bv = NaN \<or>
      jdiv R (Number P rv) (Fin 100) = Fin 0 \<or> jdiv R (Number P rv) (Fin 100) = NaN \<or>
      jle (jabs (jsub R (Number P ev) (Number P sv))) (Fin 0)) \<and>
   (jdiv Fin (Number P rv) (Fin 100) = Fin 0 \<or> jdiv Fin (Number P rv) (Fin 100) = NaN) =
     (Number P rv = Fin 0 \<or> Number P rv = NaN) \<and>
   (jdiv round64 (Number P rv) (Fin 100) = Fin 0 \<or>
    jdiv round64 (Number P rv) (Fin 100) = NaN) =
     (Number P rv = NaN \<or> (\<exists>r. Number P rv = Fin r \<and> \<bar>r\<bar> / 100 \<le> pow2 (- 1075))) \<and>
   (\<forall>x y. is_binary64 x \<and> is_binary64 y \<longrightarrow>
      jle (jabs (jsub round64 (Fin x) (Fin y))) (Fin 0) = (x = y)) \<and>
   (calcPosition R P a1 a2 a3 a4 a5 a6 = Throws) =
     (a1 = JSymbol \<or> a2 = JSymbol \<or> a3 = JSymbol \<or> a4 = JSymbol \<or> a5 = JSymbol \<or>
      a6 = JSymbol)"
proof (intro conjI allI impI)
  show "(calcPosition R P (Prim ev) (Prim sv) (Prim bv) (Prim rv) (Prim fv) (Prim lv) =
      Returns None) =
     (Number P ev = Fin 0 \<or> Number P ev = NaN \<or>
      Number P sv = Fin 0 \<or> Number P sv = NaN \<or>
      Number P bv = Fin 0 \<or> Number P bv = NaN \<or>
      jdiv R (Number P rv) (Fin 100) = Fin 0 \<or> jdiv R (Number P rv) (Fin 100) = NaN \<or>
      jle (jabs (jsub R (Number P ev) (Number P sv))) (Fin 0))"
    unfolding calcPosition_None_iff falsy_num_iff by blast
  show "(jdiv Fin (Number P rv) (Fin 100) = Fin 0 \<or> jdiv Fin (Number P rv) (Fin 100) = NaN) =
     (Number P rv = Fin 0 \<or> Number P rv = NaN)"
    by (rule falsy_div_100_exact)
  show "(jdiv round64 (Number P rv) (Fin 100) = Fin 0 \<or>
    jdiv round64 (Number P rv) (Fin 100) = NaN) =
     (Number P rv = NaN \<or> (\<exists>r. Number P rv = Fin r \<and> \<bar>r\<bar> / 100 \<le> pow2 (- 1075)))"
    by (rule falsy_div_100_binary64)
  show "(calcPosition R P a1 a2 a3 a4 a5 a6 = Throws) =
     (a1 = JSymbol \<or> a2 = JSymbol \<or> a3 = JSymbol \<or> a4 = JSymbol \<or> a5 = JSymbol \<or>
      a6 = JSymbol)"
    by (rule calcPosition_Throws_iff)
next
  fix x y
  assume b: "is_binary64 x \<and> is_binary64 y"
  show "jle (jabs (jsub round64 (Fin x) (Fin y))) (Fin 0) = (x = y)"
    by (rule stopDist_le_0_binary64) (simp_all add: b)
qed

text \<open>
  In the engine's arithmetic: an unparsable entry, a zero balance, a zero risk and an
  entry equal to the stop each give \<^verbatim>\<open>null\<close>; the example input gives a plan; a symbol
  for the stop throws.
\<close>

theorem calcPosition_null_iff_witness:
  "calcPosition round64 parse_digits (Prim (JStr ''abc'')) (Prim (JNum (Fin 95)))
     (Prim (JNum (Fin 10000))) (Prim (JNum (Fin 1))) (Prim (JNum (round64 0.04)))
     (Prim (JNum (Fin 3))) = Returns None \<and>
   calcPosition round64 no_parse (Prim (JNum (Fin 100))) (Prim (JNum (Fin 95)))
     (Prim (JNum (Fin 0))) (Prim (JNum (Fin 1))) (Prim (JNum (round64 0.04)))
     (Prim (JNum (Fin 3))) = Returns None \<and>
   calcPosition round64 no_parse (Prim (JNum (Fin 100))) (Prim (JNum (Fin 95)))
     (Prim (JNum (Fin 10000))) (Prim (JNum (Fin 0))) (Prim (JNum (round64 0.04)))
     (Prim (JNum (Fin 3))) = Returns None \<and>
   calcPosition round64 no_parse (Prim (JNum (Fin 100))) (Prim (JNum (Fin 100)))
     (Prim (JNum (Fin 10000))) (Prim (JNum (Fin 1))) (Prim (JNum (round64 0.04)))
     (Prim (JNum (Fin 3))) = Returns None \<and>
   calcPosition round64 no_parse (Prim (JNum (Fin 100))) (Prim (JNum (Fin 95)))
     (Prim (JNum (Fin 10000))) (Prim (JNum (Fin 1))) (Prim (JNum (round64 0.04)))
     (Prim (JNum (Fin 3))) \<noteq> Returns None \<and>
   calcPosition round64 no_parse (Prim (JNum (Fin 100))) JSymbol
     (Prim (JNum (Fin 10000))) (Prim (JNum (Fin 1))) (Prim (JNum (round64 0.04)))
     (Prim (JNum (Fin 3))) = Throws"
proof -
  have z: "round64 0 = Fin 0" by (simp add: round64_def)
  have a: "calcPosition round64 parse_digits (Prim (JStr ''abc'')) (Prim (JNum (Fin 95)))
     (Prim (JNum (Fin 10000))) (Prim (JNum (Fin 1))) (Prim (JNum (round64 0.04)))
     (Prim (JNum (Fin 3))) = Returns None"
    using calcPosition_null_iff [of round64 parse_digits "JStr ''abc''" "JNum (Fin 95)"
      "JNum (Fin 10000)" "JNum (Fin 1)" "JNum (round64 0.04)" "JNum (Fin 3)"]
    by (simp add: parse_digits_def digit_chars_def)
  have b: "calcPosition round64 no_parse (Prim (JNum (Fin 100))) (Prim (JNum (Fin 95)))
     (Prim (JNum (Fin 0))) (Prim (JNum (Fin 1))) (Prim (JNum (round64 0.04)))
     (Prim (JNum (Fin 3))) = Returns None"
    using calcPosition_null_iff [of round64 no_parse "JNum (Fin 100)" "JNum (Fin 95)"
      "JNum (Fin 0)" "JNum (Fin 1)" "JNum (round64 0.04)" "JNum (Fin 3)"]
    by simp
  have c: "calcPosition round64 no_parse (Prim (JNum (Fin 100))) (Prim (JNum (Fin 95)))
     (Prim (JNum (Fin 10000))) (Prim (JNum (Fin 0))) (Prim (JNum (round64 0.04)))
     (Prim (JNum (Fin 3))) = Returns None"
    using calcPosition_null_iff [of round64 no_parse "JNum (Fin 100)" "JNum (Fin 95)"
      "JNum (Fin 10000)" "JNum (Fin 0)" "JNum (round64 0.04)" "JNum (Fin 3)"]
    by (simp add: z)
  have d: "calcPosition round64 no_parse (Prim (JNum (Fin 100))) (Prim (JNum (Fin 100)))
     (Prim (JNum (Fin 10000))) (Prim (JNum (Fin 1))) (Prim (JNum (round64 0.04)))
     (Prim (JNum (Fin 3))) = Returns None"
    using calcPosition_null_iff [of round64 no_parse "JNum (Fin 100)" "JNum (Fin 100)"
      "JNum (Fin 10000)" "JNum (Fin 1)" "JNum (round64 0.04)" "JNum (Fin 3)"]
    by (simp add: z)
  have e: "calcPosition round64 no_parse (Prim (JNum (Fin 100))) (Prim (JNum (Fin 95)))
     (Prim (JNum (Fin 10000))) (Prim (JNum (Fin 1))) (Prim (JNum (round64 0.04)))
     (Prim (JNum (Fin 3))) \<noteq> Returns None"
    using calcPosition_example64 by simp
  have f: "calcPosition round64 no_parse (Prim (JNum (Fin 100))) JSymbol
     (Prim (JNum (Fin 10000))) (Prim (JNum (Fin 1))) (Prim (JNum (round64 0.04)))
     (Prim (JNum (Fin 3))) = Throws"
    using calcPosition_null_iff [of round64 no_parse "JNum (Fin 100)" "JNum (Fin 95)"
      "JNum (Fin 10000)" "JNum (Fin 1)" "JNum (round64 0.04)" "JNum (Fin 3)"
      "Prim (JNum (Fin 100))" JSymbol "Prim (JNum (Fin 10000))" "Prim (JNum (Fin 1))"
      "Prim (JNum (round64 0.04))" "Prim (JNum (Fin 3))"]
    by simp
  from a b c d e f show ?thesis by blast
qed

text \<open>
  A risk of \<open>2^-1074\<close>, the least positive binary64 value (printed \<^verbatim>\<open>5e-324\<close>), is neither
  0 nor \<^verbatim>\<open>NaN\<close>, and entry 100, stop 95 and balance 10000 are in order; yet its
  hundredth rounds to 0 and the function returns \<^verbatim>\<open>null\<close>.
\<close>

theorem calcPosition_tiny_risk_is_null:
  "calcPosition round64 no_parse (Prim (JNum (Fin 100))) (Prim (JNum (Fin 95)))
     (Prim (JNum (Fin 10000))) (Prim (JNum (Fin (pow2 (- 1074))))) (Prim (JNum (round64 0.04)))
     (Prim (JNum (Fin 3))) = Returns None \<and>
   is_binary64 (pow2 (- 1074)) \<and>
   Number no_parse (JNum (Fin (pow2 (- 1074)))) \<noteq> Fin 0 \<and>
   Number no_parse (JNum (Fin (pow2 (- 1074)))) \<noteq> NaN \<and>
   \<not> jle (jabs (jsub round64 (Fin 100) (Fin 95))) (Fin 0)"
proof -
  have "\<bar>pow2 (- 1074)\<bar> / 100 \<le> pow2 (- 1075)"
    by (simp add: pow2_def)
  then have "jdiv round64 (Fin (pow2 (- 1074))) (Fin 100) = Fin 0"
    by (simp add: round64_zero_iff)
  then have "calcPosition round64 no_parse (Prim (JNum (Fin 100))) (Prim (JNum (Fin 95)))
     (Prim (JNum (Fin 10000))) (Prim (JNum (Fin (pow2 (- 1074))))) (Prim (JNum (round64 0.04)))
     (Prim (JNum (Fin 3))) = Returns None"
    by (simp add: calcPosition_None_iff truthy_num_def)
  moreover have "\<not> jle (jabs (jsub round64 (Fin 100) (Fin 95))) (Fin 0)"
    by (simp add: r64)
  ultimately show ?thesis
    by (simp add: is_binary64_least)
qed

text \<open>
  C10, as amended. In exact arithmetic, for an entry and a stop that coerce to finite
  numbers, every plan \<^verbatim>\<open>calcPosition\<close> returns satisfies \<open>units * stopDist = riskValue\<close>,
  where \<open>stopDist = |entry - stop|\<close> and \<open>riskValue = balance * (riskPercent / 100)\<close>:
  the loss from entry to stop over the computed units is the configured risk, whatever
  the fee and the leverage.
\<close>

theorem calcPosition_risk_identity:
  assumes "calcPosition Fin P (Prim ev) (Prim sv) (Prim bv) (Prim rv) fv lv =
             Returns (Some p)"
    and "Number P ev = Fin e" and "Number P sv = Fin s"
  shows "jmul Fin (units p) (stopDist p) = riskValue p \<and>
         stopDist p = Fin \<bar>e - s\<bar> \<and>
         riskValue p = jmul Fin (Number P bv) (jdiv Fin (Number P rv) (Fin 100)) \<and>
         jmul Fin (units p) (Fin \<bar>e - s\<bar>) =
           jmul Fin (Number P bv) (jdiv Fin (Number P rv) (Fin 100))"
proof -
  from assms(1) obtain fv' lv' where a: "fv = Prim fv'" "lv = Prim lv'"
    using calcPosition_Returns_Prim by blast
  note h = assms(1) [unfolded a]
  from h assms(2,3) have e0: "e \<noteq> 0" and es: "e \<noteq> s"
    and tb: "truthy_num (Number P bv)"
    and tr: "truthy_num (jdiv Fin (Number P rv) (Fin 100))"
    by (auto simp: calcPosition_def Let_def truthy_num_def split: if_splits)
  have sd: "stopDist p = Fin \<bar>e - s\<bar>"
    using calcPosition_Some_fields(1) [OF h] assms(2,3) by simp
  have rv: "riskValue p = jmul Fin (Number P bv) (jdiv Fin (Number P rv) (Fin 100))"
    using h by (rule calcPosition_Some_fields)
  have "jmul Fin (units p) (stopDist p) = riskValue p"
    using h assms(2,3) e0 es tb tr
    by (cases "Number P bv"; cases "Number P rv")
      (auto simp: calcPosition_def Let_def truthy_num_def inf_of_sign_def
        zero_le_divide_iff divide_less_0_iff zero_less_divide_iff split: if_splits)
  with sd rv show ?thesis by simp
qed

text \<open>At the example input: 20 units over a stop distance of 5 lose the risk of 100.\<close>

theorem calcPosition_risk_identity_witness:
  "calcPosition Fin no_parse (Prim (JNum (Fin 100))) (Prim (JNum (Fin 95)))
     (Prim (JNum (Fin 10000))) (Prim (JNum (Fin 1))) (Prim (JNum (Fin 0.04)))
     (Prim (JNum (Fin 3))) = Returns (Some example_plan) \<and>
   Number no_parse (JNum (Fin 100)) = Fin 100 \<and> Number no_parse (JNum (Fin 95)) = Fin 95 \<and>
   jmul Fin (units example_plan) (Fin \<bar>100 - 95\<bar>) =
     jmul Fin (Number no_parse (JNum (Fin 10000)))
       (jdiv Fin (Number no_parse (JNum (Fin 1))) (Fin 100)) \<and>
   units example_plan = Fin 20 \<and> stopDist example_plan = Fin 5 \<and>
   riskValue example_plan = Fin 100"
proof -
  have n1: "Number no_parse (JNum (Fin 100)) = Fin 100"
    and n2: "Number no_parse (JNum (Fin 95)) = Fin 95"
    by simp_all
  from calcPosition_risk_identity [OF calcPosition_example n1 n2] calcPosition_example
  show ?thesis by (simp add: example_plan_def)
qed

text \<open>
  With an infinite entry the function returns a plan, in exact arithmetic as in the
  engine's, whose units are \<^verbatim>\<open>NaN\<close>: their product with the stop distance is not the risk
  of 100.
\<close>

theorem calcPosition_infinite_entry_breaks_identity:
  "calcPosition Fin no_parse (Prim (JNum PInf)) (Prim (JNum (Fin 95)))
     (Prim (JNum (Fin 10000))) (Prim (JNum (Fin 1))) (Prim (JNum (Fin 0.04)))
     (Prim (JNum (Fin 3))) =
     Returns (Some \<lparr>entry = PInf, stop = Fin 95, stopDist = PInf, riskValue = Fin 100,
           positionUSDT = NaN, units = NaN, notional = NaN, marginRequired = NaN,
           estFees = NaN\<rparr>) \<and>
   jmul Fin NaN PInf \<noteq> Fin 100 \<and>
   calcPosition round64 no_parse (Prim (JNum PInf)) (Prim (JNum (Fin 95)))
     (Prim (JNum (Fin 10000))) (Prim (JNum (Fin 1))) (Prim (JNum (round64 0.04)))
     (Prim (JNum (Fin 3))) =
     Returns (Some \<lparr>entry = PInf, stop = Fin 95, stopDist = PInf, riskValue = Fin 100,
           positionUSDT = NaN, units = NaN, notional = NaN, marginRequired = NaN,
           estFees = NaN\<rparr>) \<and>
   jmul round64 NaN PInf \<noteq> Fin 100"
  by (simp add: calcPosition_def truthy_num_def jor_def r64)

section \<open>The equity series\<close>

lemma localeCompare_le: "(localeCompare a b \<le> 0) = (a \<le> b)"
  by (auto simp: localeCompare_def)

lemma insert_sorted_insort:
  "insert_sorted (\<lambda>a b. localeCompare (f a) (f b)) x xs = insort_key f x xs"
  by (induction xs) (simp_all add: localeCompare_le)

lemma array_sort_sort_key:
  "array_sort (\<lambda>a b. localeCompare (f a) (f b)) xs = sort_key f xs"
proof -
  have "insert_sorted (\<lambda>a b. localeCompare (f a) (f b)) = insort_key f"
    by (intro ext) (rule insert_sorted_insort)
  then show ?thesis by (simp add: array_sort_def sort_key_def)
qed

lemma row_date_equity_row_of [simp]: "row_date (equity_row_of R P i e) = date e"
  by (simp add: equity_row_of_def Let_def)

lemma index_equity_row_of [simp]: "index (equity_row_of R P i e) = Suc i"
  by (simp add: equity_row_of_def Let_def)

lemma map_row_date_equity: "map row_date (equity R P es) = map date (sort_key date es)"
proof -
  have "map row_date (map (\<lambda>(i, e). equity_row_of R P i e) (enumerate n xs)) = map date xs"
    for xs n
    by (induction xs arbitrary: n) simp_all
  then show ?thesis by (simp add: equity_def array_sort_sort_key)
qed

lemma map_index_equity: "map index (equity R P es) = [1..<Suc (length es)]"
proof -
  have "map index (map (\<lambda>(i, e). equity_row_of R P i e) (enumerate 0 xs)) =
          map Suc (map fst (enumerate 0 xs))" for xs
    by (simp add: case_prod_unfold comp_def del: map_fst_enumerate)
  then show ?thesis by (simp add: equity_def array_sort_sort_key map_Suc_upt)
qed

lemma sorted_equity: "sorted (map row_date (equity R P es))"
  by (simp add: map_row_date_equity)

lemma length_equity: "length (equity R P es) = length es"
  by (simp add: equity_def array_sort_sort_key)

lemma mset_dates_equity: "mset (map row_date (equity R P es)) = mset (map date es)"
  by (simp add: map_row_date_equity)

lemma set_dates_equity: "row_date ` set (equity R P es) = date ` set es"
proof -
  have "set (map row_date (equity R P es)) = set (map date es)"
    using mset_dates_equity [of R P es] by (rule mset_eq_setD)
  then show ?thesis by simp
qed

lemma equity_row_formulas:
  assumes "r \<in> set (equity R P es)"
  shows "pl r = jsub R (end_bal r) (start r)"
    and "retPct r =
           (if jgt (start r) (Fin 0) then jmul R (jdiv R (pl r) (start r)) (Fin 100) else Fin 0)"
proof -
  from assms obtain i e where r: "r = equity_row_of R P i e"
    by (auto simp: equity_def)
  show "pl r = jsub R (end_bal r) (start r)"
    by (simp add: r equity_row_of_def Let_def)
  show "retPct r =
          (if jgt (start r) (Fin 0) then jmul R (jdiv R (pl r) (start r)) (Fin 100) else Fin 0)"
    by (simp add: r equity_row_of_def Let_def)
qed

lemma equity_example:
  "equity Fin no_parse example_entries =
     [\<lparr>index = 1, row_date = ''2024-01-01'', start = Fin 1000, end_bal = Fin 1050,
       pl = Fin 50, retPct = Fin 5\<rparr>,
      \<lparr>index = 2, row_date = ''2024-01-02'', start = Fin 1050, end_bal = Fin 1020,
       pl = Fin (- 30), retPct = Fin (- 20 / 7)\<rparr>]"
  by (simp add: example_entries_def equity_def array_sort_def localeCompare_def
      equity_row_of_def Let_def jor_def truthy_num_def jgt_def less_char_def)

lemma equity_example64:
  "equity round64 no_parse example_entries =
     [\<lparr>index = 1, row_date = ''2024-01-01'', start = Fin 1000, end_bal = Fin 1050,
       pl = Fin 50, retPct = Fin 5\<rparr>,
      \<lparr>index = 2, row_date = ''2024-01-02'', start = Fin 1050, end_bal = Fin 1020,
       pl = Fin (- 30), retPct = round64 (- 20 / 7)\<rparr>]"
  by (simp add: example_entries_def equity_def array_sort_def localeCompare_def
      equity_row_of_def jor_def truthy_num_def jgt_def less_char_def r64)

lemma retPct64_not_rounded: "round64 (- 20 / 7) \<noteq> round64 (- 2.857)"
  by (simp add: r64)

text \<open>
  C3. For every list of journal entries, the rows of \<^verbatim>\<open>equity\<close> are in ascending order
  of their date strings (the lexicographic order), they carry the dates of the entries
  (each as often as it occurs), and their indices are 1, 2, ..., n for the n entries.
\<close>

theorem equity_sorted_indexed:
  "sorted (map row_date (equity R P es)) \<and>
   map index (equity R P es) = [1..<Suc (length es)] \<and>
   length (equity R P es) = length es \<and>
   mset (map row_date (equity R P es)) = mset (map date es)"
  by (intro conjI sorted_equity map_index_equity length_equity mset_dates_equity)

text \<open>The example's two days, entered latest first, come out in order with indices 1, 2.\<close>

theorem equity_sorted_indexed_witness:
  "map row_date (equity round64 no_parse (rev example_entries)) = [''2024-01-01'', ''2024-01-02''] \<and>
   sorted (map row_date (equity round64 no_parse (rev example_entries))) \<and>
   map index (equity round64 no_parse (rev example_entries)) = [1, 2]"
proof -
  note t = equity_sorted_indexed [of round64 no_parse "rev example_entries"]
  have d: "map row_date (equity round64 no_parse (rev example_entries)) =
             [''2024-01-01'', ''2024-01-02'']"
    by (simp add: example_entries_def equity_def array_sort_def localeCompare_def
        less_char_def)
  have i: "[1..<Suc (length (rev example_entries))] = [1, 2]"
    by (simp add: example_entries_def upt_rec)
  from t have s: "sorted (map row_date (equity round64 no_parse (rev example_entries)))"
    by blast
  from t have "map index (equity round64 no_parse (rev example_entries)) =
                 [1..<Suc (length (rev example_entries))]"
    by blast
  with i have "map index (equity round64 no_parse (rev example_entries)) = [1, 2]"
    by (simp only:)
  with d s show ?thesis by blast
qed

text \<open>
  C4, as amended. Every row of \<^verbatim>\<open>equity\<close>, in the engine's arithmetic as in exact
  arithmetic, has \<open>pl = end - start\<close>, and \<open>retPct = pl / start * 100\<close> when \<open>start > 0\<close>,
  \<open>retPct = 0\<close> otherwise (so when \<open>start = 0\<close>). The example's two entries give
  \<open>pl = [50, -30]\<close> and \<open>retPct = [5, -20/7]\<close> (in binary64, the value nearest to -20/7);
  the second is -2.857 to three decimals.
\<close>

theorem equity_row_pl_retPct:
  "(\<forall>r \<in> set (equity R P es).
      pl r = jsub R (end_bal r) (start r) \<and>
      (jgt (start r) (Fin 0) \<longrightarrow> retPct r = jmul R (jdiv R (pl r) (start r)) (Fin 100)) \<and>
      (\<not> jgt (start r) (Fin 0) \<longrightarrow> retPct r = Fin 0) \<and>
      (start r = Fin 0 \<longrightarrow> retPct r = Fin 0)) \<and>
   map pl (equity Fin no_parse example_entries) = [Fin 50, Fin (- 30)] \<and>
   map retPct (equity Fin no_parse example_entries) = [Fin 5, Fin (- 20 / 7)] \<and>
   map pl (equity round64 no_parse example_entries) = [Fin 50, Fin (- 30)] \<and>
   map retPct (equity round64 no_parse example_entries) = [Fin 5, round64 (- 20 / 7)] \<and>
   \<bar>- 20 / 7 - (- 2.857)\<bar> < (0.0005 :: real)"
  by (auto simp: equity_row_formulas equity_example equity_example64 jgt_def)

theorem equity_row_pl_retPct_witness:
  "pl (equity round64 no_parse example_entries ! 1) =
     jsub round64 (end_bal (equity round64 no_parse example_entries ! 1))
       (start (equity round64 no_parse example_entries ! 1)) \<and>
   jgt (start (equity round64 no_parse example_entries ! 1)) (Fin 0) \<and>
   retPct (equity round64 no_parse example_entries ! 1) =
     jmul round64 (jdiv round64 (pl (equity round64 no_parse example_entries ! 1))
       (start (equity round64 no_parse example_entries ! 1))) (Fin 100) \<and>
   equity round64 no_parse example_entries ! 1 \<in> set (equity round64 no_parse example_entries)"
proof -
  have m: "equity round64 no_parse example_entries ! 1 \<in>
             set (equity round64 no_parse example_entries)"
    by (rule nth_mem) (simp add: equity_example64)
  have g: "jgt (start (equity round64 no_parse example_entries ! 1)) (Fin 0)"
    by (simp add: equity_example64 jgt_def)
  from equity_row_pl_retPct [of round64 no_parse example_entries] m g
  show ?thesis by blast
qed

text \<open>
  The second return of the example is not the three-decimal figure -2.857: neither in
  exact arithmetic nor, reading -2.857 as a binary64 value, in the engine's.
\<close>

theorem equity_example_retPct_not_rounded:
  "map retPct (equity Fin no_parse example_entries) \<noteq> [Fin 5.0, Fin (- 2.857)] \<and>
   map retPct (equity round64 no_parse example_entries) \<noteq> [Fin 5.0, round64 (- 2.857)]"
  using retPct64_not_rounded by (simp add: equity_example equity_example64)

section \<open>Daily rules and the month's statistics\<close>

lemma Number_or_0_numeric: "Number P (jor (JNum (Fin m)) (JNum (Fin 0))) = Fin m"
  by (simp add: jor_def truthy_num_def)

lemma dailyTargetHit_retPct:
  assumes "r \<in> set (equity R P es)" and "jgt (start r) (Fin 0)"
  shows "dailyTargetHit R P (Some r) tg = jge (retPct r) (Number P (jor tg (JNum (Fin 0))))"
proof -
  from assms(2) have "\<not> jle (start r) (Fin 0)"
    by (cases "start r") (simp_all add: jgt_def)
  moreover from assms have "retPct r = jmul R (jdiv R (pl r) (start r)) (Fin 100)"
    by (simp add: equity_row_formulas)
  ultimately show ?thesis
    by (simp add: dailyTargetHit_def Let_def)
qed

lemma dailyLoss_example:
  fixes r :: equity_row
  assumes "start r = Fin 1000" and "pl r = Fin (- 40)"
  shows "dailyLossExceeded round64 P (Some r) (JNum (Fin 3))"
    and "dailyLossExceeded Fin P (Some r) (JNum (Fin 3))"
proof -
  have "jge (jmul round64 (jdiv round64 (Fin 40) (Fin 1000)) (Fin 100)) (Fin 3)"
    by (simp add: jge_def r64)
  then show "dailyLossExceeded round64 P (Some r) (JNum (Fin 3))"
    using assms by (simp add: dailyLossExceeded_def jor_def truthy_num_def)
  show "dailyLossExceeded Fin P (Some r) (JNum (Fin 3))"
    using assms by (simp add: dailyLossExceeded_def Let_def jge_def jor_def truthy_num_def)
qed

text \<open>
  C5. With no row for the day, or a row whose start is at most 0, neither flag is set.
  Otherwise the loss flag is \<open>(pl < 0 ? |pl| / start * 100 : 0) \<ge> maxDailyLossPercent\<close>
  and the target flag is \<open>pl / start * 100 \<ge> dailyTargetPercent\<close>, the quotient and the
  product being those of the arithmetic in use and each threshold read through
  \<^verbatim>\<open>Number(x || 0)\<close>, which leaves a finite numeric threshold as it is. For a row of the
  series with a start above 0 the target flag compares the row's own \<open>retPct\<close>. A row
  with \<open>pl = -40\<close> and \<open>start = 1000\<close> exceeds a loss limit of 3, in binary64 as in exact
  arithmetic.
\<close>

theorem daily_rules:
  "((row = None \<or> (\<exists>r. row = Some r \<and> jle (start r) (Fin 0))) \<longrightarrow>
      \<not> dailyLossExceeded R P row mx \<and> \<not> dailyTargetHit R P row tg) \<and>
   (\<forall>r. row = Some r \<and> \<not> jle (start r) (Fin 0) \<longrightarrow>
      dailyLossExceeded R P row mx =
        jge (if jlt (pl r) (Fin 0) then jmul R (jdiv R (jabs (pl r)) (start r)) (Fin 100)
             else Fin 0)
            (Number P (jor mx (JNum (Fin 0)))) \<and>
      dailyTargetHit R P row tg =
        jge (jmul R (jdiv R (pl r) (start r)) (Fin 100)) (Number P (jor tg (JNum (Fin 0))))) \<and>
   (\<forall>m. mx = JNum (Fin m) \<longrightarrow> Number P (jor mx (JNum (Fin 0))) = Fin m) \<and>
   (\<forall>t. tg = JNum (Fin t) \<longrightarrow> Number P (jor tg (JNum (Fin 0))) = Fin t) \<and>
   (\<forall>r \<in> set (equity R P es). jgt (start r) (Fin 0) \<longrightarrow>
      dailyTargetHit R P (Some r) tg = jge (retPct r) (Number P (jor tg (JNum (Fin 0))))) \<and>
   (\<forall>r. start r = Fin 1000 \<and> pl r = Fin (- 40) \<longrightarrow>
      dailyLossExceeded round64 P (Some r) (JNum (Fin 3)) \<and>
      dailyLossExceeded Fin P (Some r) (JNum (Fin 3)))"
proof (intro conjI allI impI ballI)
  assume "row = None \<or> (\<exists>r. row = Some r \<and> jle (start r) (Fin 0))"
  then show "\<not> dailyLossExceeded R P row mx" and "\<not> dailyTargetHit R P row tg"
    by (auto simp: dailyLossExceeded_def dailyTargetHit_def)
next
  fix r
  assume "row = Some r \<and> \<not> jle (start r) (Fin 0)"
  then show "dailyLossExceeded R P row mx =
        jge (if jlt (pl r) (Fin 0) then jmul R (jdiv R (jabs (pl r)) (start r)) (Fin 100)
             else Fin 0)
            (Number P (jor mx (JNum (Fin 0))))"
    and "dailyTargetHit R P row tg =
        jge (jmul R (jdiv R (pl r) (start r)) (Fin 100)) (Number P (jor tg (JNum (Fin 0))))"
    by (simp_all add: dailyLossExceeded_def dailyTargetHit_def Let_def)
next
  fix m
  assume "mx = JNum (Fin m)"
  then show "Number P (jor mx (JNum (Fin 0))) = Fin m"
    by (simp add: Number_or_0_numeric)
next
  fix t
  assume "tg = JNum (Fin t)"
  then show "Number P (jor tg (JNum (Fin 0))) = Fin t"
    by (simp add: Number_or_0_numeric)
next
  fix r
  assume "r \<in> set (equity R P es)" and "jgt (start r) (Fin 0)"
  then show "dailyTargetHit R P (Some r) tg =
               jge (retPct r) (Number P (jor tg (JNum (Fin 0))))"
    by (rule dailyTargetHit_retPct)
next
  fix r :: equity_row
  assume "start r = Fin 1000 \<and> pl r = Fin (- 40)"
  then show "dailyLossExceeded round64 P (Some r) (JNum (Fin 3))"
    and "dailyLossExceeded Fin P (Some r) (JNum (Fin 3))"
    by (simp_all add: dailyLoss_example)
qed

text \<open>
  In the engine's arithmetic. A day from 1000 to 960 breaks the loss limit of 3 and
  misses the target of 1. A day from 100 to 71 stays under a loss limit of 29: the
  computed loss, \<open>(29 / 100) * 100\<close>, rounds below 29. A day with no row sets no flag.
\<close>

theorem daily_rules_witness:
  "dailyLossExceeded round64 no_parse
     (Some \<lparr>index = 1, row_date = ''2024-01-01'', start = Fin 1000, end_bal = Fin 960,
            pl = Fin (- 40), retPct = Fin (- 4)\<rparr>) (JNum (Fin 3)) \<and>
   \<not> dailyTargetHit round64 no_parse
     (Some \<lparr>index = 1, row_date = ''2024-01-01'', start = Fin 1000, end_bal = Fin 960,
            pl = Fin (- 40), retPct = Fin (- 4)\<rparr>) (JNum (Fin 1)) \<and>
   \<not> dailyLossExceeded round64 no_parse
     (Some \<lparr>index = 1, row_date = ''2024-01-01'', start = Fin 100, end_bal = Fin 71,
            pl = Fin (- 29), retPct = Fin (- 29)\<rparr>) (JNum (Fin 29)) \<and>
   jmul round64 (jdiv round64 (Fin 29) (Fin 100)) (Fin 100) =
     Fin (29 - 1 / 2 ^ 48) \<and>
   \<not> dailyLossExceeded round64 no_parse None (JNum (Fin 3)) \<and>
   \<not> dailyTargetHit round64 no_parse None (JNum (Fin 1))"
proof -
  have v: "jmul round64 (jdiv round64 (Fin 29) (Fin 100)) (Fin 100) = Fin (29 - 1 / 2 ^ 48)"
    by (simp add: r64)
  have w: "jmul round64 (jdiv round64 (Fin (- 40)) (Fin 1000)) (Fin 100) = round64 (- 4)"
    by (simp add: r64)
  have x: "jge (jmul round64 (jdiv round64 (Fin 40) (Fin 1000)) (Fin 100)) (Fin 3)"
    by (simp add: jge_def r64)
  have y: "\<not> jge (round64 (- 4)) (Fin 1)"
    by (simp add: jge_def r64)
  note a = daily_rules [of "Some \<lparr>index = 1, row_date = ''2024-01-01'', start = Fin 1000,
      end_bal = Fin 960, pl = Fin (- 40), retPct = Fin (- 4)\<rparr>" round64 no_parse
      "JNum (Fin 3)" "JNum (Fin 1)"]
  note b = daily_rules [of "Some \<lparr>index = 1, row_date = ''2024-01-01'', start = Fin 100,
      end_bal = Fin 71, pl = Fin (- 29), retPct = Fin (- 29)\<rparr>" round64 no_parse
      "JNum (Fin 29)" "JNum (Fin 1)"]
  note c = daily_rules [of None round64 no_parse "JNum (Fin 3)" "JNum (Fin 1)"]
  have 1: "dailyLossExceeded round64 no_parse
     (Some \<lparr>index = 1, row_date = ''2024-01-01'', start = Fin 1000, end_bal = Fin 960,
            pl = Fin (- 40), retPct = Fin (- 4)\<rparr>) (JNum (Fin 3))"
    using a x by (simp add: jor_def truthy_num_def)
  have 2: "\<not> dailyTargetHit round64 no_parse
     (Some \<lparr>index = 1, row_date = ''2024-01-01'', start = Fin 1000, end_bal = Fin 960,
            pl = Fin (- 40), retPct = Fin (- 4)\<rparr>) (JNum (Fin 1))"
    using a w y by (simp add: jor_def truthy_num_def)
  have 3: "\<not> dailyLossExceeded round64 no_parse
     (Some \<lparr>index = 1, row_date = ''2024-01-01'', start = Fin 100, end_bal = Fin 71,
            pl = Fin (- 29), retPct = Fin (- 29)\<rparr>) (JNum (Fin 29))"
    using b v by (simp add: jor_def truthy_num_def jge_def)
  from c have 4: "\<not> dailyLossExceeded round64 no_parse None (JNum (Fin 3))"
    and 5: "\<not> dailyTargetHit round64 no_parse None (JNum (Fin 1))"
    by simp_all
  from 1 2 3 v 4 5 show ?thesis by blast
qed

text \<open>
  C6, as amended. For a row with \<open>start > 0\<close> and \<open>pl \<ge> 0\<close> the loss flag is set exactly
  when the coerced loss limit is at most 0: it is never set under a limit above 0, and
  it is set under a zero, blank or negative limit.
\<close>

theorem dailyLoss_nonnegative_pl:
  assumes "jgt (start r) (Fin 0)" and "jge (pl r) (Fin 0)"
  shows "dailyLossExceeded R P (Some r) mx = jle (Number P (jor mx (JNum (Fin 0)))) (Fin 0) \<and>
         (jgt (Number P (jor mx (JNum (Fin 0)))) (Fin 0) \<longrightarrow>
            \<not> dailyLossExceeded R P (Some r) mx)"
  using assms
  by (cases "start r"; cases "pl r"; cases "Number P (jor mx (JNum (Fin 0)))")
    (simp_all add: dailyLossExceeded_def Let_def jge_def jgt_def)

text \<open>A winning day from 1000 to 1050 under the default limit of 3: no flag.\<close>

theorem dailyLoss_nonnegative_pl_witness:
  "jgt (Fin 1000) (Fin 0) \<and> jge (Fin 50) (Fin 0) \<and>
   \<not> dailyLossExceeded round64 no_parse
     (Some \<lparr>index = 1, row_date = ''2024-01-01'', start = Fin 1000, end_bal = Fin 1050,
            pl = Fin 50, retPct = Fin 5\<rparr>) (JNum (Fin 3))"
proof -
  have a: "jgt (start \<lparr>index = 1, row_date = ''2024-01-01'', start = Fin 1000,
      end_bal = Fin 1050, pl = Fin 50, retPct = Fin 5\<rparr>) (Fin 0)"
    by (simp add: jgt_def)
  have b: "jge (pl \<lparr>index = 1, row_date = ''2024-01-01'', start = Fin 1000,
      end_bal = Fin 1050, pl = Fin 50, retPct = Fin 5\<rparr>) (Fin 0)"
    by (simp add: jge_def)
  from dailyLoss_nonnegative_pl [OF a b, of round64 no_parse "JNum (Fin 3)"] a b
  show ?thesis by (simp add: jor_def truthy_num_def jgt_def)
qed

text \<open>The same winning day under a loss limit of 0: the flag is set.\<close>

theorem dailyLoss_zero_limit_flags_winning_day:
  "jgt (start \<lparr>index = 1, row_date = ''2024-01-01'', start = Fin 1000, end_bal = Fin 1050,
           pl = Fin 50, retPct = Fin 5\<rparr>) (Fin 0) \<and>
   jge (pl \<lparr>index = 1, row_date = ''2024-01-01'', start = Fin 1000, end_bal = Fin 1050,
           pl = Fin 50, retPct = Fin 5\<rparr>) (Fin 0) \<and>
   dailyLossExceeded round64 no_parse
     (Some \<lparr>index = 1, row_date = ''2024-01-01'', start = Fin 1000, end_bal = Fin 1050,
            pl = Fin 50, retPct = Fin 5\<rparr>) (JNum (Fin 0))"
  by (simp add: dailyLossExceeded_def Let_def jge_def jgt_def jor_def truthy_num_def)

lemma sorted_filter_first:
  assumes "sorted (map f xs)" and "filter t xs = r # rs" and "r' \<in> set (filter t xs)"
  shows "f r \<le> f r'"
proof -
  have "sorted (map f (filter t xs))"
    using assms(1) by (rule sorted_filter)
  with assms(2,3) show ?thesis by auto
qed

lemma jadd_exact_assoc: "jadd Fin (jadd Fin a b) c = jadd Fin a (jadd Fin b c)"
  by (cases a; cases b; cases c) simp_all

lemma jadd_exact_zero_left [simp]: "jadd Fin (Fin 0) a = a"
  by (cases a) simp_all

lemma jadd_exact_zero_right [simp]: "jadd Fin a (Fin 0) = a"
  by (cases a) simp_all

lemma foldl_jadd_exact:
  "foldl (\<lambda>s r. jadd Fin s (f r)) a rs = jadd Fin a (jsum Fin (map f rs))"
  by (induction rs arbitrary: a) (simp_all add: jadd_exact_assoc)

lemma monthStats_example64:
  "monthStats round64 ''2024-01'' (equity round64 no_parse example_entries) =
     \<lparr>ms_pl = Fin 20, ms_retPct = Fin 2\<rparr>"
  by (simp only: equity_example64)
    (simp add: monthStats_def jgt_def r64)

text \<open>
  C7. For every series and year-month, \<^verbatim>\<open>monthStats\<close> returns as \<open>pl\<close> the sum of \<open>pl\<close>
  over the rows whose date starts with that year-month (added from the first row on, in
  the arithmetic in use; in exact arithmetic the order does not matter), and as
  \<open>retPct\<close> the value \<open>pl / start * 100\<close> for the start of the first such row when that
  start is above 0, else 0; with no such row (so for the empty series) it returns 0 and
  0. In a series sorted by date, and so in the one \<^verbatim>\<open>equity\<close> builds, the first such row
  is the earliest of them.
\<close>

theorem monthStats_spec:
  "ms_pl (monthStats R ym eq) =
     foldl (jadd R) (Fin 0) (map pl (filter (\<lambda>r. prefix ym (row_date r)) eq)) \<and>
   ms_pl (monthStats Fin ym eq) =
     jsum Fin (map pl (filter (\<lambda>r. prefix ym (row_date r)) eq)) \<and>
   (filter (\<lambda>r. prefix ym (row_date r)) eq = [] \<longrightarrow>
      monthStats R ym eq = \<lparr>ms_pl = Fin 0, ms_retPct = Fin 0\<rparr>) \<and>
   monthStats R ym [] = \<lparr>ms_pl = Fin 0, ms_retPct = Fin 0\<rparr> \<and>
   (\<forall>r rs. filter (\<lambda>r. prefix ym (row_date r)) eq = r # rs \<longrightarrow>
      ms_retPct (monthStats R ym eq) =
        (if jgt (start r) (Fin 0)
         then jmul R (jdiv R (ms_pl (monthStats R ym eq)) (start r)) (Fin 100) else Fin 0) \<and>
      (sorted (map row_date eq) \<longrightarrow>
         (\<forall>r' \<in> set (filter (\<lambda>r. prefix ym (row_date r)) eq). row_date r \<le> row_date r'))) \<and>
   (\<forall>r rs. filter (\<lambda>r. prefix ym (row_date r)) (equity R P es) = r # rs \<longrightarrow>
      (\<forall>r' \<in> set (filter (\<lambda>r. prefix ym (row_date r)) (equity R P es)).
         row_date r \<le> row_date r'))"
proof (intro conjI allI impI ballI)
  show "ms_pl (monthStats R ym eq) =
     foldl (jadd R) (Fin 0) (map pl (filter (\<lambda>r. prefix ym (row_date r)) eq))"
    by (simp add: monthStats_def Let_def foldl_map)
next
  show "ms_pl (monthStats Fin ym eq) =
     jsum Fin (map pl (filter (\<lambda>r. prefix ym (row_date r)) eq))"
    by (simp add: monthStats_def Let_def foldl_jadd_exact)
next
  assume "filter (\<lambda>r. prefix ym (row_date r)) eq = []"
  then show "monthStats R ym eq = \<lparr>ms_pl = Fin 0, ms_retPct = Fin 0\<rparr>"
    by (simp add: monthStats_def Let_def jgt_def)
next
  show "monthStats R ym [] = \<lparr>ms_pl = Fin 0, ms_retPct = Fin 0\<rparr>"
    by (simp add: monthStats_def Let_def jgt_def)
next
  fix r rs
  assume "filter (\<lambda>r. prefix ym (row_date r)) eq = r # rs"
  then show "ms_retPct (monthStats R ym eq) =
        (if jgt (start r) (Fin 0)
         then jmul R (jdiv R (ms_pl (monthStats R ym eq)) (start r)) (Fin 100) else Fin 0)"
    by (simp add: monthStats_def Let_def)
next
  fix r rs r'
  assume a: "filter (\<lambda>r. prefix ym (row_date r)) eq = r # rs"
    and b: "sorted (map row_date eq)"
    and c: "r' \<in> set (filter (\<lambda>r. prefix ym (row_date r)) eq)"
  show "row_date r \<le> row_date r'"
    using b a c by (rule sorted_filter_first)
next
  fix r rs r'
  assume a: "filter (\<lambda>r. prefix ym (row_date r)) (equity R P es) = r # rs"
    and c: "r' \<in> set (filter (\<lambda>r. prefix ym (row_date r)) (equity R P es))"
  show "row_date r \<le> row_date r'"
    using sorted_equity a c by (rule sorted_filter_first)
qed

text \<open>
  The example's January in the engine's arithmetic: 50 - 30 = 20 on a first start of
  1000, a return of 2 per cent; its February has no row.
\<close>

theorem monthStats_spec_witness:
  "monthStats round64 ''2024-01'' (equity round64 no_parse example_entries) =
     \<lparr>ms_pl = Fin 20, ms_retPct = Fin 2\<rparr> \<and>
   ms_pl (monthStats round64 ''2024-01'' (equity round64 no_parse example_entries)) =
     foldl (jadd round64) (Fin 0) [Fin 50, Fin (- 30)] \<and>
   monthStats round64 ''2024-02'' (equity round64 no_parse example_entries) =
     \<lparr>ms_pl = Fin 0, ms_retPct = Fin 0\<rparr>"
proof -
  note a = monthStats_spec [of round64 "''2024-01''" "equity round64 no_parse example_entries"
      no_parse example_entries]
  note b = monthStats_spec [of round64 "''2024-02''" "equity round64 no_parse example_entries"
      no_parse example_entries]
  have f: "filter (\<lambda>r. prefix ''2024-02'' (row_date r))
             (equity round64 no_parse example_entries) = []"
    by (simp only: equity_example64) simp
  have g: "map pl (filter (\<lambda>r. prefix ''2024-01'' (row_date r))
             (equity round64 no_parse example_entries)) = [Fin 50, Fin (- 30)]"
    by (simp only: equity_example64) simp
  from b f have 1: "monthStats round64 ''2024-02'' (equity round64 no_parse example_entries) =
     \<lparr>ms_pl = Fin 0, ms_retPct = Fin 0\<rparr>"
    by blast
  from a have "ms_pl (monthStats round64 ''2024-01''
        (equity round64 no_parse example_entries)) =
      foldl (jadd round64) (Fin 0) (map pl (filter (\<lambda>r. prefix ''2024-01'' (row_date r))
        (equity round64 no_parse example_entries)))"
    by blast
  then have 2: "ms_pl (monthStats round64 ''2024-01''
        (equity round64 no_parse example_entries)) =
      foldl (jadd round64) (Fin 0) [Fin 50, Fin (- 30)]"
    by (simp only: g)
  from monthStats_example64 1 2 show ?thesis by blast
qed

section \<open>The store\<close>

lemma findIndex_None: "(findIndex t xs = None) = (\<forall>x \<in> set xs. \<not> t x)"
  by (induction xs) auto

lemma findIndex_Some:
  "(findIndex t xs = Some i) = (i < length xs \<and> t (xs ! i) \<and> (\<forall>j < i. \<not> t (xs ! j)))"
proof (induction xs arbitrary: i)
  case Nil
  then show ?case by simp
next
  case (Cons x xs)
  show ?case
  proof (cases "t x")
    case True
    then show ?thesis by (cases i) auto
  next
    case False
    show ?thesis
    proof (cases i)
      case 0
      with False show ?thesis by auto
    next
      case (Suc k)
      with False Cons.IH [of k] show ?thesis
        by (auto simp: less_Suc_eq_0_disj)
    qed
  qed
qed

lemma findIndex_update:
  assumes "findIndex t xs = Some i" and "t y"
  shows "findIndex t (xs[i := y]) = Some i"
  using assms by (auto simp: findIndex_Some nth_list_update)

lemma findIndex_append_new:
  assumes "findIndex t xs = None" and "t y"
  shows "findIndex t (xs @ [y]) = Some (length xs)"
  using assms by (auto simp: findIndex_Some findIndex_None nth_append)

lemma date_payload_of [simp]: "date (payload_of P trim form) = date form"
  by (simp add: payload_of_def)

lemma upsert_twice:
  "addOrUpdateEntry P trim form (addOrUpdateEntry P trim form es) =
     addOrUpdateEntry P trim form es"
proof (cases "findIndex (\<lambda>x. date x = date form) es")
  case None
  then have "addOrUpdateEntry P trim form es = es @ [payload_of P trim form]"
    by (simp add: addOrUpdateEntry_def)
  moreover from None
  have "findIndex (\<lambda>x. date x = date form) (es @ [payload_of P trim form]) =
          Some (length es)"
    by (rule findIndex_append_new) simp
  ultimately show ?thesis by (simp add: addOrUpdateEntry_def)
next
  case (Some i)
  then have "addOrUpdateEntry P trim form es = es[i := payload_of P trim form]"
    by (simp add: addOrUpdateEntry_def)
  moreover from Some
  have "findIndex (\<lambda>x. date x = date form) (es[i := payload_of P trim form]) = Some i"
    by (rule findIndex_update) simp
  ultimately show ?thesis by (simp add: addOrUpdateEntry_def)
qed

lemma upsert_fresh:
  assumes "\<forall>x \<in> set es. date x \<noteq> date form"
  shows "addOrUpdateEntry P trim form es = es @ [payload_of P trim form]"
proof -
  from assms have "findIndex (\<lambda>x. date x = date form) es = None"
    by (auto simp: findIndex_None)
  then show ?thesis by (simp add: addOrUpdateEntry_def)
qed

lemma upsert_replace:
  assumes "i < length es" and "date (es ! i) = date form"
    and "\<forall>j < i. date (es ! j) \<noteq> date form"
  shows "addOrUpdateEntry P trim form es = es[i := payload_of P trim form]"
proof -
  from assms have "findIndex (\<lambda>x. date x = date form) es = Some i"
    by (simp add: findIndex_Some)
  then show ?thesis by (simp add: addOrUpdateEntry_def)
qed

lemma payload_example_edit:
  "payload_of parse_digits trim_ascii example_form_edit =
     \<lparr>date = ''2024-01-02'', startBalance = JNum (Fin 1050), endBalance = JNum (Fin 1080),
      notes_text = ''late reversal''\<rparr>"
  by (simp add: payload_of_def example_form_edit_def parse_digits_def digit_chars_def
      trim_ascii_def is_space_def jor_def)

lemma payload_example_new:
  "payload_of parse_digits trim_ascii example_form_new =
     \<lparr>date = ''2024-01-03'', startBalance = JNum (Fin 1020), endBalance = JNum (Fin 0),
      notes_text = ''''\<rparr>"
  by (simp add: payload_of_def example_form_new_def parse_digits_def digit_chars_def
      trim_ascii_def is_space_def jor_def)

text \<open>
  C8. Saving the same form twice leaves the entries as the first save left them, in
  length and contents. A save whose date is already in the journal puts the form's entry,
  whole, in the place of the first entry of that date and changes no other place; a save
  with a fresh date appends the entry.
\<close>

theorem addOrUpdateEntry_idempotent:
  "addOrUpdateEntry P trim form (addOrUpdateEntry P trim form es) =
     addOrUpdateEntry P trim form es \<and>
   ((\<forall>x \<in> set es. date x \<noteq> date form) \<longrightarrow>
      addOrUpdateEntry P trim form es = es @ [payload_of P trim form]) \<and>
   (\<forall>i. i < length es \<and> date (es ! i) = date form \<and> (\<forall>j < i. date (es ! j) \<noteq> date form) \<longrightarrow>
      addOrUpdateEntry P trim form es = es[i := payload_of P trim form] \<and>
      length (addOrUpdateEntry P trim form es) = length es \<and>
      addOrUpdateEntry P trim form es ! i = payload_of P trim form \<and>
      (\<forall>k < length es. k \<noteq> i \<longrightarrow> addOrUpdateEntry P trim form es ! k = es ! k))"
proof (intro conjI allI impI)
  show "addOrUpdateEntry P trim form (addOrUpdateEntry P trim form es) =
          addOrUpdateEntry P trim form es"
    by (rule upsert_twice)
next
  assume "\<forall>x \<in> set es. date x \<noteq> date form"
  then show "addOrUpdateEntry P trim form es = es @ [payload_of P trim form]"
    by (rule upsert_fresh)
next
  fix i
  assume "i < length es \<and> date (es ! i) = date form \<and> (\<forall>j < i. date (es ! j) \<noteq> date form)"
  then have r: "addOrUpdateEntry P trim form es = es[i := payload_of P trim form]"
    and i: "i < length es"
    by (simp_all add: upsert_replace)
  show "addOrUpdateEntry P trim form es = es[i := payload_of P trim form]"
    by (rule r)
  show "length (addOrUpdateEntry P trim form es) = length es"
    by (simp add: r)
  show "addOrUpdateEntry P trim form es ! i = payload_of P trim form"
    using i by (simp add: r)
  fix k
  assume "k < length es" and "k \<noteq> i"
  then show "addOrUpdateEntry P trim form es ! k = es ! k"
    by (simp add: r)
qed

text \<open>
  On the example's journal: editing the second day twice gives the two entries with the
  second replaced, and saving a third day appends it.
\<close>

theorem addOrUpdateEntry_idempotent_witness:
  "addOrUpdateEntry parse_digits trim_ascii example_form_edit
     (addOrUpdateEntry parse_digits trim_ascii example_form_edit example_entries) =
     [\<lparr>date = ''2024-01-01'', startBalance = JNum (Fin 1000), endBalance = JNum (Fin 1050),
       notes_text = ''''\<rparr>,
      \<lparr>date = ''2024-01-02'', startBalance = JNum (Fin 1050), endBalance = JNum (Fin 1080),
       notes_text = ''late reversal''\<rparr>] \<and>
   addOrUpdateEntry parse_digits trim_ascii example_form_new example_entries =
     example_entries @
     [\<lparr>date = ''2024-01-03'', startBalance = JNum (Fin 1020), endBalance = JNum (Fin 0),
       notes_text = ''''\<rparr>]"
proof -
  note t = addOrUpdateEntry_idempotent [of parse_digits trim_ascii example_form_edit
      example_entries]
  note u = addOrUpdateEntry_idempotent [of parse_digits trim_ascii example_form_new
      example_entries]
  have i: "(1::nat) < length example_entries \<and>
      date (example_entries ! 1) = date example_form_edit \<and>
      (\<forall>j < 1. date (example_entries ! j) \<noteq> date example_form_edit)"
    by (simp add: example_entries_def example_form_edit_def)
  from t i have "addOrUpdateEntry parse_digits trim_ascii example_form_edit example_entries =
      example_entries[1 := payload_of parse_digits trim_ascii example_form_edit]"
    by blast
  with t have a: "addOrUpdateEntry parse_digits trim_ascii example_form_edit
     (addOrUpdateEntry parse_digits trim_ascii example_form_edit example_entries) =
     example_entries[1 := payload_of parse_digits trim_ascii example_form_edit]"
    by (simp only:)
  have f: "\<forall>x \<in> set example_entries. date x \<noteq> date example_form_new"
    by (simp add: example_entries_def example_form_new_def)
  with u have b: "addOrUpdateEntry parse_digits trim_ascii example_form_new example_entries =
      example_entries @ [payload_of parse_digits trim_ascii example_form_new]"
    by blast
  show ?thesis
    unfolding a b payload_example_edit payload_example_new
    by (simp add: example_entries_def)
qed

section \<open>The CSV export\<close>

lemma split_on_no_sep: "c \<notin> set s \<Longrightarrow> split_on c s = [s]"
  by (induction s) auto

lemma split_on_append_sep:
  "c \<notin> set x \<Longrightarrow> split_on c (x @ c # rest) = x # split_on c rest"
  by (induction x) auto

lemma split_on_join:
  "xs \<noteq> [] \<Longrightarrow> \<forall>x \<in> set xs. c \<notin> set x \<Longrightarrow> split_on c (join [c] xs) = xs"
proof (induction "[c]" xs rule: join.induct)
  case 1
  then show ?case by simp
next
  case (2 x)
  then show ?case by (simp add: split_on_no_sep)
next
  case (3 x y ys)
  then show ?case by (simp add: split_on_append_sep)
qed

lemma set_join: "set (join sep xs) \<subseteq> set sep \<union> \<Union> (set ` set xs)"
  by (induction sep xs rule: join.induct) auto

lemma join_free:
  assumes "c \<notin> set sep" and "\<forall>x \<in> set xs. c \<notin> set x"
  shows "c \<notin> set (join sep xs)"
  using assms set_join [of sep xs] by auto

lemma comma_replace_commas: "CHR '','' \<notin> set (replace_commas s)"
  by (auto simp: replace_commas_def)

lemma newline_replace_commas: "CHR 0x0A \<notin> set s \<Longrightarrow> CHR 0x0A \<notin> set (replace_commas s)"
  by (auto simp: replace_commas_def split: if_splits)

lemma replace_commas_nth:
  "i < length s \<Longrightarrow> replace_commas s ! i = (if s ! i = CHR '','' then CHR '';'' else s ! i)"
  by (simp add: replace_commas_def)

lemma notes_for_cases: "notes_for es d = [] \<or> (\<exists>e \<in> set es. notes_for es d = notes_text e)"
  by (auto simp: notes_for_def find_Some_iff split: option.splits)

lemma newline_notes_for:
  assumes "\<forall>e \<in> set es. CHR 0x0A \<notin> set (notes_text e)"
  shows "CHR 0x0A \<notin> set (notes_for es d)"
  using assms notes_for_cases [of es d] by auto

lemma csv_header_line:
  "join '','' csv_header = ''date,startBalance,endBalance,pl,retPct,notes''"
  by (simp add: csv_header_def)

lemma csv_fields_comma_free:
  assumes "\<forall>n. CHR '','' \<notin> set (toStr n)" and "CHR '','' \<notin> set (row_date r)"
  shows "\<forall>f \<in> set (csv_fields toStr entries r). CHR '','' \<notin> set f"
  using assms by (simp add: csv_fields_def comma_replace_commas)

lemma csv_fields_newline_free:
  assumes "\<forall>n. CHR 0x0A \<notin> set (toStr n)" and "CHR 0x0A \<notin> set (row_date r)"
    and "\<forall>e \<in> set entries. CHR 0x0A \<notin> set (notes_text e)"
  shows "\<forall>f \<in> set (csv_fields toStr entries r). CHR 0x0A \<notin> set f"
  using assms by (simp add: csv_fields_def newline_replace_commas newline_notes_for)

lemma csv_lines_newline_free:
  assumes "\<forall>n. CHR 0x0A \<notin> set (toStr n)"
    and "\<forall>r \<in> set eq. CHR 0x0A \<notin> set (row_date r)"
    and "\<forall>e \<in> set entries. CHR 0x0A \<notin> set (notes_text e)"
  shows "\<forall>l \<in> set (csv_lines toStr eq entries). CHR 0x0A \<notin> set l"
proof
  fix l
  assume "l \<in> set (csv_lines toStr eq entries)"
  then consider "l = join '','' csv_header"
    | r where "r \<in> set eq" and "l = join '','' (csv_fields toStr entries r)"
    by (auto simp: csv_lines_def)
  then show "CHR 0x0A \<notin> set l"
  proof cases
    case 1
    then show ?thesis by (simp add: csv_header_line)
  next
    case 2
    from assms 2(1) have "\<forall>f \<in> set (csv_fields toStr entries r). CHR 0x0A \<notin> set f"
      by (intro csv_fields_newline_free) auto
    then show ?thesis
      unfolding 2(2) by (intro join_free) simp_all
  qed
qed

lemma csv_split_lines:
  assumes "\<forall>n. CHR 0x0A \<notin> set (toStr n)"
    and "\<forall>r \<in> set eq. CHR 0x0A \<notin> set (row_date r)"
    and "\<forall>e \<in> set entries. CHR 0x0A \<notin> set (notes_text e)"
  shows "split_on (CHR 0x0A) (csv toStr eq entries) = csv_lines toStr eq entries"
proof -
  have "csv_lines toStr eq entries \<noteq> []"
    by (simp add: csv_lines_def)
  moreover have "\<forall>l \<in> set (csv_lines toStr eq entries). CHR 0x0A \<notin> set l"
    using assms by (rule csv_lines_newline_free)
  ultimately show ?thesis
    unfolding csv_def by (rule split_on_join)
qed

lemma csv_split_fields:
  assumes "\<forall>n. CHR '','' \<notin> set (toStr n)" and "CHR '','' \<notin> set (row_date r)"
  shows "split_on (CHR '','') (join '','' (csv_fields toStr entries r)) =
           csv_fields toStr entries r"
proof -
  have "csv_fields toStr entries r \<noteq> []"
    by (simp add: csv_fields_def)
  moreover have "\<forall>f \<in> set (csv_fields toStr entries r). CHR '','' \<notin> set f"
    using assms by (rule csv_fields_comma_free)
  ultimately show ?thesis by (rule split_on_join)
qed

lemma set_digits: "set (digits n) \<subseteq> set digit_chars"
proof (induction n rule: digits.induct)
  case (1 n)
  have d: "k < 10 \<Longrightarrow> digit_chars ! k \<in> set digit_chars" for k
    by (rule nth_mem) (simp add: digit_chars_def)
  show ?case
  proof (cases "n < 10")
    case True
    then show ?thesis
      using d [of n] by (simp add: digits.simps [of n])
  next
    case False
    with 1 have "set (digits (n div 10)) \<subseteq> set digit_chars" by simp
    moreover have "digit_chars ! (n mod 10) \<in> set digit_chars"
      by (rule d) simp
    ultimately show ?thesis
      using False by (simp add: digits.simps [of n])
  qed
qed

lemma toString_int_free:
  "CHR '','' \<notin> set (toString_int n) \<and> CHR 0x0A \<notin> set (toString_int n)"
proof -
  have "CHR '','' \<notin> set digit_chars" and "CHR 0x0A \<notin> set digit_chars"
    by (simp_all add: digit_chars_def)
  with set_digits have "CHR '','' \<notin> set (digits k)" and "CHR 0x0A \<notin> set (digits k)" for k
    by blast+
  then show ?thesis
    by (cases n) (simp_all add: toString_int_def)
qed

lemma equity_one_day:
  "equity round64 no_parse one_day_entries =
     [\<lparr>index = 1, row_date = ''2024-01-01'', start = Fin 1000, end_bal = Fin 1050,
       pl = Fin 50, retPct = Fin 5\<rparr>]"
  by (simp add: one_day_entries_def equity_def array_sort_def equity_row_of_def
      jor_def truthy_num_def jgt_def r64)

lemma equity_two_line:
  "equity round64 no_parse two_line_entries =
     [\<lparr>index = 1, row_date = ''2024-01-01'', start = Fin 1000, end_bal = Fin 1000,
       pl = Fin 0, retPct = Fin 0\<rparr>]"
  by (simp add: two_line_entries_def equity_def array_sort_def equity_row_of_def
      jor_def truthy_num_def jgt_def r64)

lemma toString_int_examples:
  "toString_int (Fin 1000) = ''1000''" "toString_int (Fin 1050) = ''1050''"
  "toString_int (Fin 50) = ''50''" "toString_int (Fin 5) = ''5''"
  "toString_int (Fin 0) = ''0''"
  by (simp_all add: toString_int_def digits.simps digit_chars_def)

lemma csv_one_day:
  "csv toString_int (equity round64 no_parse one_day_entries) one_day_entries =
     ''date,startBalance,endBalance,pl,retPct,notes'' @ [CHR 0x0A] @
     ''2024-01-01,1000,1050,50,5,breakout; held''"
  by (simp only: equity_one_day)
    (simp add: csv_def csv_lines_def csv_fields_def csv_header_def
      toString_int_examples notes_for_def one_day_entries_def replace_commas_def)

text \<open>
  C9, as amended. With dates free of commas and line breaks, notes free of line breaks
  and a number rendering that emits neither (as the engine's does), the exported text
  splits at its line breaks into the header \<^verbatim>\<open>date,startBalance,endBalance,pl,retPct,notes\<close>
  followed by exactly one line per row of the series, and every such line splits at its
  commas into exactly the six fields of its row: date, start, end, pl, retPct and the
  notes, in which every comma has become a semicolon.
\<close>

theorem csv_export_shape:
  assumes "\<forall>n. CHR '','' \<notin> set (toStr n) \<and> CHR 0x0A \<notin> set (toStr n)"
    and "\<forall>e \<in> set entries. CHR '','' \<notin> set (date e) \<and> CHR 0x0A \<notin> set (date e) \<and>
           CHR 0x0A \<notin> set (notes_text e)"
  shows "split_on (CHR 0x0A) (csv toStr (equity R P entries) entries) =
           csv_lines toStr (equity R P entries) entries \<and>
         length (csv_lines toStr (equity R P entries) entries) = Suc (length (equity R P entries)) \<and>
         hd (csv_lines toStr (equity R P entries) entries) =
           ''date,startBalance,endBalance,pl,retPct,notes'' \<and>
         split_on (CHR '','') (hd (csv_lines toStr (equity R P entries) entries)) = csv_header \<and>
         length csv_header = 6 \<and>
         (\<forall>i < length (equity R P entries).
            split_on (CHR '','') (csv_lines toStr (equity R P entries) entries ! Suc i) =
              csv_fields toStr entries (equity R P entries ! i)) \<and>
         (\<forall>r. length (csv_fields toStr entries r) = 6 \<and>
              csv_fields toStr entries r ! 0 = row_date r \<and>
              csv_fields toStr entries r ! 5 = replace_commas (notes_for entries (row_date r))) \<and>
         (\<forall>s. CHR '','' \<notin> set (replace_commas s) \<and> length (replace_commas s) = length s \<and>
              (\<forall>i < length s.
                 replace_commas s ! i = (if s ! i = CHR '','' then CHR '';'' else s ! i)))"
proof -
  have dates: "CHR '','' \<notin> set (row_date r) \<and> CHR 0x0A \<notin> set (row_date r)"
    if "r \<in> set (equity R P entries)" for r
  proof -
    from that have "row_date r \<in> date ` set entries"
      using set_dates_equity [of R P entries] by blast
    with assms(2) show ?thesis by auto
  qed
  have "split_on (CHR 0x0A) (csv toStr (equity R P entries) entries) =
          csv_lines toStr (equity R P entries) entries"
    using assms dates by (intro csv_split_lines) auto
  moreover have "length (csv_lines toStr (equity R P entries) entries) =
                   Suc (length (equity R P entries))"
    by (simp add: csv_lines_def)
  moreover have "hd (csv_lines toStr (equity R P entries) entries) =
                   ''date,startBalance,endBalance,pl,retPct,notes''"
    by (simp add: csv_lines_def csv_header_line)
  moreover have "split_on (CHR '','') (hd (csv_lines toStr (equity R P entries) entries)) =
                   csv_header"
    unfolding csv_lines_def list.sel
    by (rule split_on_join) (simp_all add: csv_header_def)
  moreover have "length csv_header = 6"
    by (simp add: csv_header_def)
  moreover have "\<forall>i < length (equity R P entries).
            split_on (CHR '','') (csv_lines toStr (equity R P entries) entries ! Suc i) =
              csv_fields toStr entries (equity R P entries ! i)"
  proof (intro allI impI)
    fix i
    assume i: "i < length (equity R P entries)"
    then have "CHR '','' \<notin> set (row_date (equity R P entries ! i))"
      using dates [of "equity R P entries ! i"] by simp
    with assms(1) have "split_on (CHR '','')
        (join '','' (csv_fields toStr entries (equity R P entries ! i))) =
        csv_fields toStr entries (equity R P entries ! i)"
      by (intro csv_split_fields) auto
    with i show "split_on (CHR '','') (csv_lines toStr (equity R P entries) entries ! Suc i) =
              csv_fields toStr entries (equity R P entries ! i)"
      by (simp add: csv_lines_def)
  qed
  moreover have "\<forall>r. length (csv_fields toStr entries r) = 6 \<and>
              csv_fields toStr entries r ! 0 = row_date r \<and>
              csv_fields toStr entries r ! 5 = replace_commas (notes_for entries (row_date r))"
    by (simp add: csv_fields_def)
  moreover have "\<forall>s. CHR '','' \<notin> set (replace_commas s) \<and>
      length (replace_commas s) = length s \<and>
      (\<forall>i < length s. replace_commas s ! i = (if s ! i = CHR '','' then CHR '';'' else s ! i))"
    by (simp add: comma_replace_commas replace_commas_nth) (simp add: replace_commas_def)
  ultimately show ?thesis by blast
qed

text \<open>
  One day from 1000 to 1050 with the note \<^verbatim>\<open>breakout, held\<close>: the text has the header
  and one line, and that line has six fields, the last with a semicolon for the comma.
\<close>

theorem csv_export_shape_witness:
  "csv toString_int (equity round64 no_parse one_day_entries) one_day_entries =
     ''date,startBalance,endBalance,pl,retPct,notes'' @ [CHR 0x0A] @
     ''2024-01-01,1000,1050,50,5,breakout; held'' \<and>
   split_on (CHR 0x0A) (csv toString_int (equity round64 no_parse one_day_entries) one_day_entries) =
     [''date,startBalance,endBalance,pl,retPct,notes'',
      ''2024-01-01,1000,1050,50,5,breakout; held''] \<and>
   split_on (CHR '','') ''2024-01-01,1000,1050,50,5,breakout; held'' =
     [''2024-01-01'', ''1000'', ''1050'', ''50'', ''5'', ''breakout; held'']"
proof -
  have a: "\<forall>n. CHR '','' \<notin> set (toString_int n) \<and> CHR 0x0A \<notin> set (toString_int n)"
    using toString_int_free by blast
  have b: "\<forall>e \<in> set one_day_entries. CHR '','' \<notin> set (date e) \<and> CHR 0x0A \<notin> set (date e) \<and>
           CHR 0x0A \<notin> set (notes_text e)"
    by (simp add: one_day_entries_def)
  note t = csv_export_shape [OF a b, of round64 no_parse]
  have l: "csv_lines toString_int (equity round64 no_parse one_day_entries) one_day_entries =
     [''date,startBalance,endBalance,pl,retPct,notes'',
      ''2024-01-01,1000,1050,50,5,breakout; held'']"
    by (simp only: equity_one_day)
      (simp add: csv_lines_def csv_fields_def csv_header_def
        toString_int_examples notes_for_def one_day_entries_def replace_commas_def)
  have f: "csv_fields toString_int one_day_entries (equity round64 no_parse one_day_entries ! 0) =
     [''2024-01-01'', ''1000'', ''1050'', ''50'', ''5'', ''breakout; held'']"
    by (simp only: equity_one_day)
      (simp add: csv_fields_def toString_int_examples notes_for_def
        one_day_entries_def replace_commas_def)
  from t have "split_on (CHR 0x0A)
      (csv toString_int (equity round64 no_parse one_day_entries) one_day_entries) =
      csv_lines toString_int (equity round64 no_parse one_day_entries) one_day_entries"
    by blast
  with l have 1: "split_on (CHR 0x0A)
      (csv toString_int (equity round64 no_parse one_day_entries) one_day_entries) =
     [''date,startBalance,endBalance,pl,retPct,notes'',
      ''2024-01-01,1000,1050,50,5,breakout; held'']"
    by (simp only:)
  have "(0::nat) < length (equity round64 no_parse one_day_entries)"
    by (simp add: equity_one_day)
  with t have "split_on (CHR '','')
      (csv_lines toString_int (equity round64 no_parse one_day_entries) one_day_entries ! Suc 0) =
      csv_fields toString_int one_day_entries (equity round64 no_parse one_day_entries ! 0)"
    by blast
  then have 2: "split_on (CHR '','') ''2024-01-01,1000,1050,50,5,breakout; held'' =
     [''2024-01-01'', ''1000'', ''1050'', ''50'', ''5'', ''breakout; held'']"
    unfolding l f by simp
  from csv_one_day 1 2 show ?thesis by blast
qed

text \<open>
  A note of two lines puts its row on two lines of the file: one row, but three lines
  with the header, the last of them a single field.
\<close>

theorem csv_two_line_note_splits_row:
  "length (equity round64 no_parse two_line_entries) = 1 \<and>
   split_on (CHR 0x0A) (csv toString_int (equity round64 no_parse two_line_entries) two_line_entries) =
     [''date,startBalance,endBalance,pl,retPct,notes'', ''2024-01-01,1000,1000,0,0,a'', ''b'']"
  by (simp only: equity_two_line)
    (simp add: csv_def csv_lines_def csv_fields_def csv_header_def
      toString_int_examples notes_for_def two_line_entries_def replace_commas_def)

end
